theory Spec2Isabelle
  imports Main
begin

section \<open>web/ww.ts: the Wormhole signalling session (Variant B)\<close>

text \<open>
  Modelled: the constructor, \<open>dial\<close>, \<open>wsserver\<close>, \<open>onmessage\<close> with the callbacks it
  registers on \<open>finishPromise\<close>, the \<open>onicecandidate\<close> handler that \<open>makePeerConnection\<close>
  installs, \<open>onclose\<close>, \<open>onerror\<close>, \<open>fail\<close> and \<open>finish\<close>. A handler maps the session to
  the new session and the list of calls it made on the WebSocket and on the
  RTCPeerConnection. Left out: \<open>close\<close> and \<open>connType\<close> (they run once WebRTC is up),
  the WASM loader, and logging.
\<close>

subsection \<open>JavaScript values the session observes\<close>

text \<open>
  A \<open>Uint8Array\<close> is a list of bytes. A JavaScript \<open>number\<close> that holds a slot is an
  integer or \<open>NaN\<close> (what \<open>parseInt\<close> returns when no digits are found); \<open>json\<close> is the
  result of \<open>JSON.parse\<close>, an object being its property list.
\<close>

type_synonym bytes = "nat list"

datatype js_number = JsNaN | JsInt int

datatype json =
    JNull
  | JBool bool
  | JNum int
  | JStr string
  | JArr "json list"
  | JObj "(string \<times> json) list"

text \<open>\<open>!msg\<close> is \<open>\<not> truthy msg\<close>.\<close>

fun truthy :: "json \<Rightarrow> bool" where
  "truthy JNull = False"
| "truthy (JBool v) = v"
| "truthy (JNum i) = (i \<noteq> 0)"
| "truthy (JStr s) = (s \<noteq> [])"
| "truthy (JArr _) = True"
| "truthy (JObj _) = True"

text \<open>
  \<open>msg.name\<close> on a value that is not \<open>null\<close>: \<open>None\<close> is \<open>undefined\<close>. Only objects
  carry the properties the session reads (\<open>slot\<close>, \<open>iceServers\<close>, \<open>type\<close>, \<open>candidate\<close>).
\<close>

fun field :: "json \<Rightarrow> string \<Rightarrow> json option" where
  "field (JObj kvs) k = map_of kvs k"
| "field _ k = None"

text \<open>\<open>if (slot)\<close> on \<open>slot?: number\<close>: \<open>undefined\<close>, \<open>0\<close> and \<open>NaN\<close> are falsy.\<close>

fun number_truthy :: "js_number option \<Rightarrow> bool" where
  "number_truthy None = False"
| "number_truthy (Some JsNaN) = False"
| "number_truthy (Some (JsInt i)) = (i \<noteq> 0)"

text \<open>\<open>Number.isSafeInteger\<close>.\<close>

fun isSafeInteger :: "js_number \<Rightarrow> bool" where
  "isSafeInteger JsNaN = False"
| "isSafeInteger (JsInt i) = (\<bar>i\<bar> \<le> 2 ^ 53 - 1)"

text \<open>
  Decimal printing, as a template literal prints an integer (exact below \<open>10^21\<close>, which
  covers close codes and safe-integer slots).
\<close>

function show_nat :: "nat \<Rightarrow> string" where
  "show_nat n =
     (if n < 10 then [''0123456789'' ! n]
      else show_nat (n div 10) @ [''0123456789'' ! (n mod 10)])"
  by pat_completeness auto
termination
  by (relation "measure id") auto

definition show_int :: "int \<Rightarrow> string" where
  "show_int i = (if i < 0 then ''-'' @ show_nat (nat (- i)) else show_nat (nat i))"

fun show_number :: "js_number \<Rightarrow> string" where
  "show_number JsNaN = ''NaN''"
| "show_number (JsInt i) = show_int i"

subsection \<open>The host: WASM symbols and browser built-ins\<close>

text \<open>
  The parts of a parsed \<open>URL\<close> that \<open>wsserver\<close> reads.
\<close>

record url =
  protocol :: string
  host :: string
  pathname :: string

text \<open>
  \<open>ww.ts\<close> only declares the WASM symbols (\<open>declare var webwormhole\<close>) and calls browser
  built-ins; both are parameters of the model. A WASM call that returns \<open>null\<close> returns
  \<open>None\<close> (\<open>start\<close>, the key of \<open>exchange\<close> and of \<open>finish\<close>, and \<open>open\<close> on a message
  that does not decrypt under the key: the handlers test exactly these for \<open>null\<close>).
  \<open>URL_new\<close> and \<open>JSON_parse\<close> return \<open>None\<close> where the built-in throws.
  \<open>parseInt\<close> takes the property it is applied to (\<open>None\<close> for \<open>undefined\<close>).
  \<open>RTCPeerConnection_new\<close> tells whether \<open>makePeerConnection\<close> returns normally on the
  given \<open>iceServers\<close> property.
\<close>

record env =
  ww_decode :: "string \<Rightarrow> js_number \<times> bytes"
  ww_encode :: "js_number \<Rightarrow> bytes \<Rightarrow> string"
  ww_start :: "bytes \<Rightarrow> string option"
  ww_exchange :: "bytes \<Rightarrow> string \<Rightarrow> bytes option \<times> string"
  ww_finish :: "string \<Rightarrow> bytes option"
  ww_open :: "bytes \<Rightarrow> string \<Rightarrow> string option"
  ww_seal :: "bytes \<Rightarrow> string \<Rightarrow> string"
  ww_fingerprint :: "bytes \<Rightarrow> bytes"
  URL_new :: "string \<Rightarrow> url option"
  JSON_parse :: "string \<Rightarrow> json option"
  JSON_stringify :: "json \<Rightarrow> string"
  parseInt :: "json option \<Rightarrow> js_number"
  getRandomValues :: "nat \<Rightarrow> bytes"
  RTCPeerConnection_new :: "json option \<Rightarrow> bool"

subsection \<open>The session object\<close>

text \<open>The values \<open>state: string\<close> is assigned or compared with.\<close>

datatype wstate =
    S_a
  | S_b
  | S_wait_for_pake_a
  | S_wait_for_pake_b
  | S_wait_for_pc_initialize
  | S_wait_for_webtc_offer
  | S_wait_for_webtc_answer
  | S_wait_for_candidates
  | S_wait_for_local_offer
  | S_wait_for_local_answer
  | S_error

datatype 'a promise = Pending | Fulfilled 'a | Rejected string

text \<open>Settling a promise that is already settled does nothing.\<close>

definition resolve :: "'a \<Rightarrow> 'a promise \<Rightarrow> 'a promise" where
  "resolve v p = (case p of Pending \<Rightarrow> Fulfilled v | _ \<Rightarrow> p)"

definition reject :: "string \<Rightarrow> 'a promise \<Rightarrow> 'a promise" where
  "reject reason p = (case p of Pending \<Rightarrow> Rejected reason | _ \<Rightarrow> p)"

text \<open>
  The callbacks the handlers register with \<open>finishPromise.then\<close>, and the points where
  such an \<open>async\<close> callback is suspended at an \<open>await\<close>.
\<close>

datatype task =
    SendOffer
  | SendAnswer json
  | AddCandidate json

datatype susp =
    AwaitCreateOffer
  | AwaitSetRemoteDescription
  | AwaitCreateAnswer

text \<open>
  Calls on the WebSocket and on the RTCPeerConnection, in the order they are made.
  \<open>Uncaught\<close> records that the handler ended by an exception of a built-in.
\<close>

datatype effect =
    WsNew string string
  | WsSend string
  | WsClose nat
  | NewPeerConnection "json option"
  | CreateOffer
  | CreateAnswer
  | SetLocalDescription json
  | SetRemoteDescription json
  | AddIceCandidate json
  | Uncaught string

text \<open>
  The fields of \<open>class Wormhole\<close>. \<open>pc\<close> and \<open>ws\<close> tell whether the optional object is
  set; \<open>signalPromise\<close> resolves to the optional code. \<open>deferred\<close> are the reactions
  waiting on \<open>finishPromise\<close>, \<open>awaiting\<close> the suspended callbacks.
\<close>

record wormhole =
  pass :: bytes
  state :: wstate
  slot :: "js_number option"
  pc :: bool
  ws :: bool
  key :: "bytes option"
  signalPromise :: "string option promise"
  finishPromise :: "unit promise"
  donePromise :: "bytes promise"
  deferred :: "task list"
  awaiting :: "susp list"

text \<open>Error codes from \<open>enum WormholeErrorCodes\<close>.\<close>

definition closeNoSuchSlot :: nat where "closeNoSuchSlot = 4000"
definition closeSlotTimedOut :: nat where "closeSlotTimedOut = 4001"
definition closeNoMoreSlots :: nat where "closeNoMoreSlots = 4002"
definition closeWrongProto :: nat where "closeWrongProto = 4003"
definition closePeerHungUp :: nat where "closePeerHungUp = 4004"
definition closeBadKey :: nat where "closeBadKey = 4005"

definition wormhole_protocol :: string where
  "wormhole_protocol = ''4''"

subsection \<open>wsserver, fail, onclose, onerror\<close>

text \<open>\<open>static wsserver(url, slot?)\<close>; \<open>None\<close> when \<open>new URL(url)\<close> throws.\<close>

definition startsWith_slash :: "string \<Rightarrow> bool" where
  "startsWith_slash p = (case p of [] \<Rightarrow> False | c # _ \<Rightarrow> c = CHR ''/'')"

definition wsserver :: "env \<Rightarrow> string \<Rightarrow> js_number option \<Rightarrow> string option" where
  "wsserver env u sl =
     (case URL_new env u of
        None \<Rightarrow> None
      | Some parsed \<Rightarrow>
          (let proto = (if protocol parsed = ''http:'' then ''ws:'' else ''wss:'');
               path0 = pathname parsed;
               path1 = (if \<not> startsWith_slash path0 then ''/'' @ path0 else path0);
               path2 = (if number_truthy sl then path1 @ show_number (the sl) else path1)
           in Some (proto @ ''//'' @ host parsed @ path2)))"

definition fail :: "string \<Rightarrow> wormhole \<Rightarrow> wormhole" where
  "fail reason w =
     w\<lparr>signalPromise := reject reason (signalPromise w),
       donePromise := reject reason (donePromise w),
       state := S_error\<rparr>"

text \<open>\<open>onclose(e)\<close> with \<open>e.code\<close> and \<open>e.reason\<close>.\<close>

definition onclose :: "wormhole \<Rightarrow> nat \<Rightarrow> string \<Rightarrow> wormhole" where
  "onclose w code reason =
     (if code = 4000 then fail ''no such slot'' w
      else if code = 4001 then fail ''timed out'' w
      else if code = 4002 then fail ''could not get slot'' w
      else if code = 4003 then fail ''wrong protocol version, must update'' w
      else if code = 4004 \<or> code = 1001 then w
      else fail (''websocket session closed: '' @ reason @ '' ('' @ show_nat code @ '')'') w)"

definition onerror :: "wormhole \<Rightarrow> wormhole" where
  "onerror w = fail ''could not connect to signalling server'' w"

subsection \<open>onmessage\<close>

text \<open>
  \<open>JSON.parse(webwormhole.open(key, m.data))\<close>: \<open>open\<close> returns \<open>null\<close> on a message
  that does not decrypt, and \<open>JSON.parse(null)\<close> is \<open>null\<close>. \<open>None\<close>: \<open>JSON.parse\<close> throws.
\<close>

definition parse_opened :: "env \<Rightarrow> bytes \<Rightarrow> string \<Rightarrow> json option" where
  "parse_opened env k d =
     (case ww_open env k d of None \<Rightarrow> Some JNull | Some s \<Rightarrow> JSON_parse env s)"

text \<open>
  The three statements every sealed-message handler runs when \<open>!msg\<close>:
  \<open>this.fail("bad key"); this.ws.send(webwormhole.seal(this.key, "bye"));
  this.ws.close(WormholeErrorCodes.closeBadKey)\<close>.
\<close>

definition bad_key :: "env \<Rightarrow> bytes \<Rightarrow> wormhole \<Rightarrow> wormhole \<times> effect list" where
  "bad_key env k w =
     (fail ''bad key'' w, [WsSend (ww_seal env k ''bye''), WsClose closeBadKey])"

text \<open>
  \<open>makePeerConnection(iceServers)\<close>: the endpoint is created and stored, unless the
  normalisation loop or the constructor throws.
\<close>

definition makePeerConnection :: "env \<Rightarrow> json option \<Rightarrow> wormhole \<Rightarrow> (wormhole \<times> effect list) option" where
  "makePeerConnection env ice w =
     (if RTCPeerConnection_new env ice
      then Some (w\<lparr>pc := True\<rparr>, [NewPeerConnection ice])
      else None)"

definition on_a :: "env \<Rightarrow> wormhole \<Rightarrow> string \<Rightarrow> wormhole \<times> effect list" where
  "on_a env w d =
     (case JSON_parse env d of
        None \<Rightarrow> (w, [Uncaught ''SyntaxError''])
      | Some msg \<Rightarrow>
          if msg = JNull then (w, [Uncaught ''TypeError''])
          else
            let sl = parseInt env (field msg ''slot'');
                w1 = w\<lparr>slot := Some sl\<rparr>
            in if \<not> isSafeInteger sl then (fail ''invalid slot'' w1, [])
               else
                 (case makePeerConnection env (field msg ''iceServers'') w1 of
                    None \<Rightarrow> (w1, [Uncaught ''TypeError''])
                  | Some (w2, es) \<Rightarrow>
                      (w2\<lparr>signalPromise :=
                             resolve (Some (ww_encode env sl (pass w2))) (signalPromise w2),
                           state := S_wait_for_pake_a\<rparr>, es)))"

definition on_b :: "env \<Rightarrow> wormhole \<Rightarrow> string \<Rightarrow> wormhole \<times> effect list" where
  "on_b env w d =
     (case JSON_parse env d of
        None \<Rightarrow> (w, [Uncaught ''SyntaxError''])
      | Some msg \<Rightarrow>
          if msg = JNull then (w, [Uncaught ''TypeError''])
          else
            (case makePeerConnection env (field msg ''iceServers'') w of
               None \<Rightarrow> (w, [Uncaught ''TypeError''])
             | Some (w1, es) \<Rightarrow>
                 let w2 = w1\<lparr>signalPromise := resolve None (signalPromise w1)\<rparr>
                 in (case ww_start env (pass w2) of
                       None \<Rightarrow> (fail ''couldn't generate A's PAKE message'' w2, es)
                     | Some msgA \<Rightarrow>
                         (w2\<lparr>state := S_wait_for_pake_b\<rparr>, es @ [WsSend msgA]))))"

definition on_wait_for_pake_a :: "env \<Rightarrow> wormhole \<Rightarrow> string \<Rightarrow> wormhole \<times> effect list" where
  "on_wait_for_pake_a env w d =
     (if \<not> pc w then (w, [])
      else
        (case ww_exchange env (pass w) d of
           (k, msgB) \<Rightarrow>
             let w1 = w\<lparr>key := k\<rparr>
             in if k = None then (fail ''could not generate key'' w1, [])
                else (w1\<lparr>state := S_wait_for_pc_initialize,
                          deferred := deferred w1 @ [SendOffer]\<rparr>, [WsSend msgB])))"

definition on_wait_for_pake_b :: "env \<Rightarrow> wormhole \<Rightarrow> string \<Rightarrow> wormhole \<times> effect list" where
  "on_wait_for_pake_b env w d =
     (let w1 = w\<lparr>key := ww_finish env d\<rparr>
      in if key w1 = None then (fail ''could not generate key'' w1, [])
         else (w1\<lparr>state := S_wait_for_webtc_offer\<rparr>, []))"

definition on_wait_for_webtc_offer :: "env \<Rightarrow> wormhole \<Rightarrow> string \<Rightarrow> wormhole \<times> effect list" where
  "on_wait_for_webtc_offer env w d =
     (case key w of
        None \<Rightarrow> (w, [])
      | Some k \<Rightarrow>
          if \<not> pc w then (w, [])
          else
            (case parse_opened env k d of
               None \<Rightarrow> (w, [Uncaught ''SyntaxError''])
             | Some msg \<Rightarrow>
                 if \<not> truthy msg then bad_key env k w
                 else if field msg ''type'' \<noteq> Some (JStr ''offer'')
                 then (fail ''unexpected message'' w, [])
                 else (w\<lparr>state := S_wait_for_candidates,
                         deferred := deferred w @ [SendAnswer msg]\<rparr>, [])))"

definition on_wait_for_webtc_answer :: "env \<Rightarrow> wormhole \<Rightarrow> string \<Rightarrow> wormhole \<times> effect list" where
  "on_wait_for_webtc_answer env w d =
     (case key w of
        None \<Rightarrow> (w, [])
      | Some k \<Rightarrow>
          if \<not> pc w then (w, [])
          else
            (case parse_opened env k d of
               None \<Rightarrow> (w, [Uncaught ''SyntaxError''])
             | Some msg \<Rightarrow>
                 if \<not> truthy msg then bad_key env k w
                 else if field msg ''type'' \<noteq> Some (JStr ''answer'')
                 then (fail ''unexpected message'' w, [])
                 else (w\<lparr>donePromise := resolve (ww_fingerprint env k) (donePromise w),
                         state := S_wait_for_candidates\<rparr>,
                       [SetRemoteDescription msg])))"

definition on_wait_for_candidates :: "env \<Rightarrow> wormhole \<Rightarrow> string \<Rightarrow> wormhole \<times> effect list" where
  "on_wait_for_candidates env w d =
     (case key w of
        None \<Rightarrow> (w, [])
      | Some k \<Rightarrow>
          if \<not> pc w then (w, [])
          else
            (case parse_opened env k d of
               None \<Rightarrow> (w, [Uncaught ''SyntaxError''])
             | Some msg \<Rightarrow>
                 if \<not> truthy msg then bad_key env k w
                 else (w\<lparr>deferred := deferred w @ [AddCandidate msg]\<rparr>, [])))"

text \<open>\<open>onmessage(m)\<close> with \<open>m.data\<close>: the \<open>switch (this.state)\<close>.\<close>

definition onmessage :: "env \<Rightarrow> wormhole \<Rightarrow> string \<Rightarrow> wormhole \<times> effect list" where
  "onmessage env w d =
     (if \<not> ws w then (w, [])
      else
        (case state w of
           S_a \<Rightarrow> on_a env w d
         | S_b \<Rightarrow> on_b env w d
         | S_wait_for_pake_a \<Rightarrow> on_wait_for_pake_a env w d
         | S_wait_for_pake_b \<Rightarrow> on_wait_for_pake_b env w d
         | S_wait_for_webtc_offer \<Rightarrow> on_wait_for_webtc_offer env w d
         | S_wait_for_webtc_answer \<Rightarrow> on_wait_for_webtc_answer env w d
         | S_wait_for_candidates \<Rightarrow> on_wait_for_candidates env w d
         | S_wait_for_pc_initialize \<Rightarrow> (fail ''unexpected message'' w, [])
         | S_wait_for_local_offer \<Rightarrow> (fail ''unexpected message'' w, [])
         | S_wait_for_local_answer \<Rightarrow> (fail ''unexpected message'' w, [])
         | S_error \<Rightarrow> (w, [])))"

subsection \<open>Deferred callbacks, local candidates, finish\<close>

text \<open>
  The synchronous part of a callback registered with \<open>finishPromise.then\<close>, up to its
  first \<open>await\<close>; a callback that reaches an \<open>await\<close> is added to \<open>awaiting\<close>.
\<close>

fun run_task :: "task \<Rightarrow> wormhole \<Rightarrow> wormhole \<times> effect list" where
  "run_task SendOffer w =
     (if \<not> ws w \<or> key w = None \<or> \<not> pc w then (w, [])
      else (w\<lparr>awaiting := awaiting w @ [AwaitCreateOffer]\<rparr>, [CreateOffer]))"
| "run_task (SendAnswer msg) w =
     (if \<not> ws w \<or> key w = None \<or> \<not> pc w then (w, [])
      else (w\<lparr>awaiting := awaiting w @ [AwaitSetRemoteDescription]\<rparr>,
            [SetRemoteDescription msg]))"
| "run_task (AddCandidate msg) w =
     (if key w = None \<or> \<not> pc w then (w, [])
      else (w, [AddIceCandidate msg]))"

fun run_tasks :: "task list \<Rightarrow> wormhole \<times> effect list \<Rightarrow> wormhole \<times> effect list" where
  "run_tasks [] r = r"
| "run_tasks (t # ts) (w, es) =
     (case run_task t w of (w', es') \<Rightarrow> run_tasks ts (w', es @ es'))"

text \<open>
  The reactions of \<open>finishPromise\<close> run, in the order they were registered, once the
  promise is fulfilled and the running handler has returned.
\<close>

definition flush :: "wormhole \<times> effect list \<Rightarrow> wormhole \<times> effect list" where
  "flush r =
     (case r of (w, es) \<Rightarrow>
        if finishPromise w = Fulfilled ()
        then run_tasks (deferred w) (w\<lparr>deferred := []\<rparr>, es)
        else (w, es))"

text \<open>
  A suspended callback continues when the promise it awaits settles: \<open>Some v\<close> is the
  value it is fulfilled with, \<open>None\<close> a rejection (the callback ends there). The
  callback passed \<open>!this.key\<close> before it was suspended; were the key unset when it
  continues, \<open>seal\<close> would be called on \<open>undefined\<close>, which ends the callback here.
\<close>

fun resume :: "env \<Rightarrow> susp \<Rightarrow> json option \<Rightarrow> wormhole \<Rightarrow> wormhole \<times> effect list" where
  "resume env s None w = (w, [Uncaught ''rejected''])"
| "resume env AwaitCreateOffer (Some offer) w =
     (case key w of
        None \<Rightarrow> (w, [Uncaught ''TypeError''])
      | Some k \<Rightarrow>
          (w\<lparr>state := S_wait_for_webtc_answer\<rparr>,
           [WsSend (ww_seal env k (JSON_stringify env offer)), SetLocalDescription offer]))"
| "resume env AwaitSetRemoteDescription (Some v) w =
     (w\<lparr>awaiting := awaiting w @ [AwaitCreateAnswer]\<rparr>, [CreateAnswer])"
| "resume env AwaitCreateAnswer (Some answer) w =
     (case key w of
        None \<Rightarrow> (w, [Uncaught ''TypeError''])
      | Some k \<Rightarrow>
          (w\<lparr>donePromise := resolve (ww_fingerprint env k) (donePromise w)\<rparr>,
           [WsSend (ww_seal env k (JSON_stringify env answer)), SetLocalDescription answer]))"

text \<open>The \<open>i\<close>-th suspended callback continues with the settled value.\<close>

definition settle :: "env \<Rightarrow> nat \<Rightarrow> json option \<Rightarrow> wormhole \<Rightarrow> wormhole \<times> effect list" where
  "settle env i v w =
     (if i < length (awaiting w)
      then resume env (awaiting w ! i) v
             (w\<lparr>awaiting := take i (awaiting w) @ drop (Suc i) (awaiting w)\<rparr>)
      else (w, []))"

text \<open>\<open>pc.onicecandidate\<close> with \<open>e.candidate\<close> (\<open>None\<close> for \<open>null\<close>).\<close>

definition onicecandidate :: "env \<Rightarrow> wormhole \<Rightarrow> json option \<Rightarrow> wormhole \<times> effect list" where
  "onicecandidate env w c =
     (case key w of
        None \<Rightarrow> (w, [])
      | Some k \<Rightarrow>
          if \<not> ws w \<or> \<not> pc w then (w, [])
          else
            (case c of
               None \<Rightarrow> (w, [])
             | Some cand \<Rightarrow>
                 if field cand ''candidate'' \<noteq> Some (JStr [])
                 then (w, [WsSend (ww_seal env k (JSON_stringify env cand))])
                 else (w, [])))"

text \<open>\<open>finish()\<close>: \<open>if (this.finishResolve) this.finishResolve()\<close>.\<close>

definition finish :: "wormhole \<Rightarrow> wormhole" where
  "finish w = w\<lparr>finishPromise := resolve () (finishPromise w)\<rparr>"

subsection \<open>Construction and the event loop\<close>

text \<open>\<open>dial(signalserver)\<close>; \<open>wsserver\<close> throwing rejects \<open>donePromise\<close>, whose executor calls it.\<close>

definition dial :: "env \<Rightarrow> string \<Rightarrow> wormhole \<Rightarrow> wormhole \<times> effect list" where
  "dial env signalserver w =
     (case wsserver env signalserver (slot w) of
        None \<Rightarrow> (w\<lparr>donePromise := reject ''TypeError'' (donePromise w)\<rparr>, [])
      | Some u \<Rightarrow> (w\<lparr>ws := True\<rparr>, [WsNew u wormhole_protocol]))"

definition blank :: wormhole where
  "blank =
     \<lparr>pass = [], state = S_a, slot = None, pc = False, ws = False, key = None,
      signalPromise = Pending, finishPromise = Pending, donePromise = Pending,
      deferred = [], awaiting = []\<rparr>"

text \<open>\<open>constructor(signalserver, code)\<close>; \<open>Inl\<close> is the thrown \<open>"bad code"\<close>.\<close>

definition Wormhole_new :: "env \<Rightarrow> string \<Rightarrow> string \<Rightarrow> string + wormhole \<times> effect list" where
  "Wormhole_new env signalserver code =
     (if code \<noteq> []
      then
        (case ww_decode env code of
           (sl, pw) \<Rightarrow>
             if length pw = 0 then Inl ''bad code''
             else Inr (dial env signalserver (blank\<lparr>slot := Some sl, pass := pw, state := S_b\<rparr>)))
      else Inr (dial env signalserver (blank\<lparr>pass := getRandomValues env 2, state := S_a\<rparr>)))"

text \<open>
  What the event loop delivers to a session: a WebSocket message, close or error, the
  caller's \<open>finish()\<close>, the settling of an awaited promise, a local candidate.
\<close>

datatype event =
    Message string
  | Close nat string
  | Error
  | Finish
  | Settled nat "json option"
  | IceCandidate "json option"

fun handle :: "env \<Rightarrow> wormhole \<Rightarrow> event \<Rightarrow> wormhole \<times> effect list" where
  "handle env w (Message d) = onmessage env w d"
| "handle env w (Close code reason) = (onclose w code reason, [])"
| "handle env w Error = (onerror w, [])"
| "handle env w Finish = (finish w, [])"
| "handle env w (Settled i v) = settle env i v w"
| "handle env w (IceCandidate c) = onicecandidate env w c"

definition step :: "env \<Rightarrow> wormhole \<Rightarrow> event \<Rightarrow> wormhole \<times> effect list" where
  "step env w e = flush (handle env w e)"

text \<open>A run accumulates the effects of the events in order.\<close>

fun run :: "env \<Rightarrow> event list \<Rightarrow> wormhole \<times> effect list \<Rightarrow> wormhole \<times> effect list" where
  "run env [] r = r"
| "run env (e # es) (w, tr) =
     (case step env w e of (w', out) \<Rightarrow> run env es (w', tr @ out))"

section \<open>cmd/rtcpipe/main.go: the bulk pipe (Variant A)\<close>

text \<open>
  Modelled: \<open>dial\<close> as a function of what the library and the broker return, and the
  part of \<open>main\<close> after \<open>dial\<close> (the two goroutines of the pipe and the teardown) as
  a transition system. Left out: flag parsing and logging.
\<close>

subsection \<open>dial\<close>

text \<open>
  \<open>webrtc.SDPType\<close>: the two values \<open>dial\<close> names, and every other value with the
  text \<open>%v\<close> prints for it.
\<close>

datatype SDPType = SDPTypeOffer | SDPTypeAnswer | SDPTypeOther string

record SessionDescription =
  sd_Type :: SDPType
  sd_SDP :: string

record Response =
  StatusCode :: nat
  Status :: string
  Body :: string

definition StatusOK :: nat where
  "StatusOK = 200"

text \<open>
  What the \<open>select\<close> at the end of \<open>dial\<close> receives first: the close of \<open>c.opened\<close>, an
  error on \<open>c.err\<close>, or nothing at all (\<open>dial\<close> has no deadline).
\<close>

datatype selected = Opened | Errored string | Blocked

text \<open>
  The library calls of \<open>dial\<close> are parameters: what each call returns, an endpoint being
  named by the number of the \<open>NewPeerConnection\<close> call that allocated it. An \<open>error\<close> that
  is \<open>nil\<close> is \<open>None\<close>; a call that returns a value and an error returns a sum.
\<close>

record pion =
  NewPeerConnection_result :: "nat \<Rightarrow> string option"
  CreateDataChannel_result :: "nat \<Rightarrow> string option"
  CreateOffer_result :: "nat \<Rightarrow> string + SessionDescription"
  CreateAnswer_result :: "nat \<Rightarrow> string + SessionDescription"
  SetLocalDescription_result :: "nat \<Rightarrow> SessionDescription \<Rightarrow> string option"
  SetRemoteDescription_result :: "nat \<Rightarrow> SessionDescription \<Rightarrow> string option"
  Marshal_result :: "SessionDescription \<Rightarrow> string + string"
  Post_result :: "nat \<Rightarrow> string \<Rightarrow> string \<Rightarrow> string + Response"
  Decode_result :: "string \<Rightarrow> string + SessionDescription"
  select_result :: selected

text \<open>The calls \<open>dial\<close> makes, in order, each on the endpoint it names.\<close>

datatype call =
    NewPeerConnection_call nat
  | CreateDataChannel_call nat
  | OnOpen_call nat
  | OnError_call nat
  | OnBufferedAmountLow_call nat
  | SetBufferedAmountLowThreshold_call nat nat
  | CreateOffer_call nat
  | CreateAnswer_call nat
  | SetLocalDescription_call nat SessionDescription
  | SetRemoteDescription_call nat SessionDescription
  | Post_call string string

datatype dial_error =
    Err string
  | StatusError string
  | UnknownSdpType SDPType

datatype 'a outcome = Returns 'a | Fails dial_error | Never_returns

text \<open>\<open>c.pc\<close> and \<open>c.d\<close>: the endpoint in use and the endpoint whose channel is in use.\<close>

record conn =
  conn_pc :: nat
  conn_d :: nat

text \<open>\<open>512 << 10\<close> and \<open>32 << 10\<close>.\<close>

definition lowWaterMark :: nat where
  "lowWaterMark = 512 * 2 ^ 10"

definition chunkSize :: nat where
  "chunkSize = 32 * 2 ^ 10"

text \<open>
  Lines 80 to 94, and again 127 to 138: allocate endpoint \<open>n\<close>, create its channel and
  register the callbacks and the threshold.
\<close>

definition new_endpoint :: "pion \<Rightarrow> nat \<Rightarrow> dial_error option \<times> call list" where
  "new_endpoint P n =
     (case NewPeerConnection_result P n of
        Some e \<Rightarrow> (Some (Err e), [NewPeerConnection_call n])
      | None \<Rightarrow>
          (case CreateDataChannel_result P n of
             Some e \<Rightarrow> (Some (Err e), [NewPeerConnection_call n, CreateDataChannel_call n])
           | None \<Rightarrow>
               (None,
                [NewPeerConnection_call n, CreateDataChannel_call n, OnOpen_call n,
                 OnError_call n, OnBufferedAmountLow_call n,
                 SetBufferedAmountLowThreshold_call n lowWaterMark])))"

text \<open>
  \<open>case webrtc.SDPTypeOffer\<close>: a fresh endpoint, the remote description, an answer, the
  second request.
\<close>

definition counter_offer ::
  "pion \<Rightarrow> string \<Rightarrow> SessionDescription \<Rightarrow> dial_error option \<times> call list" where
  "counter_offer P target remote =
     (case new_endpoint P 2 of
        (Some e, cs) \<Rightarrow> (Some e, cs)
      | (None, cs) \<Rightarrow>
          (case SetRemoteDescription_result P 2 remote of
             Some e \<Rightarrow> (Some (Err e), cs @ [SetRemoteDescription_call 2 remote])
           | None \<Rightarrow>
               (case CreateAnswer_result P 2 of
                  Inl e \<Rightarrow>
                    (Some (Err e), cs @ [SetRemoteDescription_call 2 remote, CreateAnswer_call 2])
                | Inr answer \<Rightarrow>
                    (let cs1 = cs @ [SetRemoteDescription_call 2 remote, CreateAnswer_call 2,
                                     SetLocalDescription_call 2 answer]
                     in case SetLocalDescription_result P 2 answer of
                          Some e \<Rightarrow> (Some (Err e), cs1)
                        | None \<Rightarrow>
                            (case Marshal_result P answer of
                               Inl e \<Rightarrow> (Some (Err e), cs1)
                             | Inr a \<Rightarrow>
                                 (case Post_result P 2 target a of
                                    Inl e \<Rightarrow> (Some (Err e), cs1 @ [Post_call target a])
                                  | Inr res \<Rightarrow>
                                      if StatusCode res \<noteq> StatusOK
                                      then (Some (StatusError (Status res)),
                                            cs1 @ [Post_call target a])
                                      else (None, cs1 @ [Post_call target a])))))))"

text \<open>The \<open>switch remote.Type\<close> and the final \<open>select\<close>.\<close>

definition accept_remote ::
  "pion \<Rightarrow> string \<Rightarrow> SessionDescription \<Rightarrow> conn outcome \<times> call list" where
  "accept_remote P target remote =
     (case sd_Type remote of
        SDPTypeOffer \<Rightarrow>
          (case counter_offer P target remote of
             (Some e, cs) \<Rightarrow> (Fails e, cs)
           | (None, cs) \<Rightarrow>
               (case select_result P of
                  Opened \<Rightarrow> (Returns \<lparr>conn_pc = 2, conn_d = 2\<rparr>, cs)
                | Errored e \<Rightarrow> (Fails (Err e), cs)
                | Blocked \<Rightarrow> (Never_returns, cs)))
      | SDPTypeAnswer \<Rightarrow>
          (case SetRemoteDescription_result P 1 remote of
             Some e \<Rightarrow> (Fails (Err e), [SetRemoteDescription_call 1 remote])
           | None \<Rightarrow>
               (case select_result P of
                  Opened \<Rightarrow> (Returns \<lparr>conn_pc = 1, conn_d = 1\<rparr>, [SetRemoteDescription_call 1 remote])
                | Errored e \<Rightarrow> (Fails (Err e), [SetRemoteDescription_call 1 remote])
                | Blocked \<Rightarrow> (Never_returns, [SetRemoteDescription_call 1 remote])))
      | SDPTypeOther t \<Rightarrow> (Fails (UnknownSdpType (SDPTypeOther t)), []))"

text \<open>\<open>dial(slot, sigserv, webRTCConfig)\<close>: its result and the calls it made.\<close>

definition rtcpipe_dial :: "pion \<Rightarrow> string \<Rightarrow> string \<Rightarrow> conn outcome \<times> call list" where
  "rtcpipe_dial P slot_arg sigserv =
     (case new_endpoint P 1 of
        (Some e, cs) \<Rightarrow> (Fails e, cs)
      | (None, cs) \<Rightarrow>
          (case CreateOffer_result P 1 of
             Inl e \<Rightarrow> (Fails (Err e), cs @ [CreateOffer_call 1])
           | Inr offer \<Rightarrow>
               (let cs1 = cs @ [CreateOffer_call 1, SetLocalDescription_call 1 offer]
                in case SetLocalDescription_result P 1 offer of
                     Some e \<Rightarrow> (Fails (Err e), cs1)
                   | None \<Rightarrow>
                       (case Marshal_result P offer of
                          Inl e \<Rightarrow> (Fails (Err e), cs1)
                        | Inr body \<Rightarrow>
                            (let cs2 = cs1 @ [Post_call (sigserv @ slot_arg) body]
                             in case Post_result P 1 (sigserv @ slot_arg) body of
                                  Inl e \<Rightarrow> (Fails (Err e), cs2)
                                | Inr res \<Rightarrow>
                                    if StatusCode res \<noteq> StatusOK
                                    then (Fails (StatusError (Status res)), cs2)
                                    else
                                      (case Decode_result P (Body res) of
                                         Inl e \<Rightarrow> (Fails (Err e), cs2)
                                       | Inr remote \<Rightarrow>
                                           (case accept_remote P (sigserv @ slot_arg) remote of
                                              (r, cs3) \<Rightarrow> (r, cs2 @ cs3))))))))"

subsection \<open>main: the data pump and teardown\<close>

text \<open>
  After \<open>dial\<close>, \<open>main\<close> starts two goroutines and goes on itself; the three run
  interleaved. Each has a location: the statement it executes next.

  \<^item> \<open>main\<close>: \<open><-done\<close>, then the loop \<open>for c.d.BufferedAmount() != 0\<close>, then the three
    \<open>Close\<close> calls, then the return that ends the process.
  \<^item> the receive end (Drain): \<open>io.Copy(os.Stdout, c.rwc)\<close>, then \<open>done <- struct{}{}\<close>.
  \<^item> the send end (Fill): \<open>F_test\<close> is the locked test
    \<open>for c.d.BufferedAmount() > c.d.BufferedAmountLowThreshold()\<close>, \<open>F_wait\<close> is
    \<open>c.flushc.Wait()\<close>, \<open>F_read\<close> is \<open>os.Stdin.Read(buf)\<close>, \<open>F_write nr er\<close> is
    \<open>c.rwc.Write(buf[0:nr])\<close> with the pending read error, then \<open>done <- struct{}{}\<close>.
\<close>

datatype main_loc = M_recv | M_poll | M_close_rwc | M_close_d | M_close_pc | M_exit

datatype drain_loc = D_copy | D_send | D_end

datatype read_error = No_error | EOF | Other_error

datatype fill_loc = F_test | F_wait | F_read | F_write nat read_error | F_send | F_end

datatype direction = Drain | Fill

text \<open>What \<open>main\<close> does, in order; \<open>Observe n\<close> is a \<open>BufferedAmount()\<close> that returned \<open>n\<close>.\<close>

datatype main_action =
    Recv_done direction
  | Observe nat
  | Sleep
  | Close_rwc
  | Close_d
  | Close_pc

text \<open>A write the send end issued: the chunk length and \<open>bufferedAmount\<close> at that moment.\<close>

datatype fill_action = Write nat nat

record pump =
  main_at :: main_loc
  drain_at :: drain_loc
  fill_at :: fill_loc
  bufferedAmount :: nat
  mtrace :: "main_action list"
  ftrace :: "fill_action list"

text \<open>
  What happens next is chosen by the scheduler and the surroundings:
  \<^item> \<open>Main_runs\<close>: \<open>main\<close> executes its next statement, unless it waits on \<open>done\<close>;
  \<^item> \<open>Copy_returns\<close>: \<open>io.Copy\<close> returns (end of stream, or an error that is logged);
  \<^item> \<open>Send_done d\<close>: the unbuffered channel \<open>done\<close> passes the value of direction \<open>d\<close>
    to \<open>main\<close>, when the one is sending and the other receiving;
  \<^item> \<open>Fill_tests\<close>: the send end takes the lock and tests the buffered amount;
  \<^item> \<open>Read_returns nr er\<close>: \<open>os.Stdin.Read\<close> returns at most \<open>len(buf)\<close> bytes;
  \<^item> \<open>Write_returns nw failed\<close>: \<open>c.rwc.Write\<close> is called and returns \<open>nw\<close> and whether
    \<open>ew != nil\<close>; the bytes it accepted are buffered;
  \<^item> \<open>Transport_sends k\<close>: the transport takes \<open>k\<close> buffered bytes off the buffer;
  \<^item> \<open>Flushed\<close>: the \<open>OnBufferedAmountLow\<close> callback \<open>c.flushed\<close> runs and signals
    \<open>flushc\<close>, which wakes the send end if it waits.
  An event that is not enabled leaves the state as it is; nothing runs once \<open>main\<close> has
  returned.
\<close>

datatype pump_event =
    Main_runs
  | Copy_returns
  | Send_done direction
  | Fill_tests
  | Read_returns nat read_error
  | Write_returns nat bool
  | Transport_sends nat
  | Flushed

definition main_runs :: "pump \<Rightarrow> pump" where
  "main_runs s =
     (case main_at s of
        M_recv \<Rightarrow> s
      | M_poll \<Rightarrow>
          if bufferedAmount s \<noteq> 0
          then s\<lparr>mtrace := mtrace s @ [Observe (bufferedAmount s), Sleep]\<rparr>
          else s\<lparr>main_at := M_close_rwc, mtrace := mtrace s @ [Observe (bufferedAmount s)]\<rparr>
      | M_close_rwc \<Rightarrow> s\<lparr>main_at := M_close_d, mtrace := mtrace s @ [Close_rwc]\<rparr>
      | M_close_d \<Rightarrow> s\<lparr>main_at := M_close_pc, mtrace := mtrace s @ [Close_d]\<rparr>
      | M_close_pc \<Rightarrow> s\<lparr>main_at := M_exit, mtrace := mtrace s @ [Close_pc]\<rparr>
      | M_exit \<Rightarrow> s)"

definition send_done :: "direction \<Rightarrow> pump \<Rightarrow> pump" where
  "send_done d s =
     (if main_at s \<noteq> M_recv then s
      else
        (case d of
           Drain \<Rightarrow>
             if drain_at s = D_send
             then s\<lparr>main_at := M_poll, drain_at := D_end, mtrace := mtrace s @ [Recv_done Drain]\<rparr>
             else s
         | Fill \<Rightarrow>
             if fill_at s = F_send
             then s\<lparr>main_at := M_poll, fill_at := F_end, mtrace := mtrace s @ [Recv_done Fill]\<rparr>
             else s))"

text \<open>The tail of the send loop, after the write: \<open>if er != nil { ... break }\<close>.\<close>

definition after_chunk :: "read_error \<Rightarrow> fill_loc" where
  "after_chunk er = (if er \<noteq> No_error then F_send else F_test)"

definition fill_tests :: "pump \<Rightarrow> pump" where
  "fill_tests s =
     (if fill_at s \<noteq> F_test then s
      else if bufferedAmount s > lowWaterMark then s\<lparr>fill_at := F_wait\<rparr>
      else s\<lparr>fill_at := F_read\<rparr>)"

definition read_returns :: "nat \<Rightarrow> read_error \<Rightarrow> pump \<Rightarrow> pump" where
  "read_returns nr er s =
     (if fill_at s \<noteq> F_read then s
      else if min nr chunkSize > 0 then s\<lparr>fill_at := F_write (min nr chunkSize) er\<rparr>
      else s\<lparr>fill_at := after_chunk er\<rparr>)"

definition write_returns :: "nat \<Rightarrow> bool \<Rightarrow> pump \<Rightarrow> pump" where
  "write_returns nw failed s =
     (case fill_at s of
        F_write nr er \<Rightarrow>
          (let s1 = s\<lparr>bufferedAmount := bufferedAmount s + nw,
                      ftrace := ftrace s @ [Write nr (bufferedAmount s)]\<rparr>
           in if failed then s1\<lparr>fill_at := F_send\<rparr>
              else if nr \<noteq> nw then s1\<lparr>fill_at := F_send\<rparr>
              else s1\<lparr>fill_at := after_chunk er\<rparr>)
      | _ \<Rightarrow> s)"

definition pump_step :: "pump \<Rightarrow> pump_event \<Rightarrow> pump" where
  "pump_step s e =
     (if main_at s = M_exit then s
      else
        (case e of
           Main_runs \<Rightarrow> main_runs s
         | Copy_returns \<Rightarrow> (if drain_at s = D_copy then s\<lparr>drain_at := D_send\<rparr> else s)
         | Send_done d \<Rightarrow> send_done d s
         | Fill_tests \<Rightarrow> fill_tests s
         | Read_returns nr er \<Rightarrow> read_returns nr er s
         | Write_returns nw failed \<Rightarrow> write_returns nw failed s
         | Transport_sends k \<Rightarrow> s\<lparr>bufferedAmount := bufferedAmount s - min k (bufferedAmount s)\<rparr>
         | Flushed \<Rightarrow> (if fill_at s = F_wait then s\<lparr>fill_at := F_test\<rparr> else s)))"

fun pump_run :: "pump_event list \<Rightarrow> pump \<Rightarrow> pump" where
  "pump_run [] s = s"
| "pump_run (e # es) s = pump_run es (pump_step s e)"

text \<open>The pump as \<open>main\<close> starts it, with whatever the channel has buffered.\<close>

definition pump_start :: "nat \<Rightarrow> pump" where
  "pump_start b =
     \<lparr>main_at = M_recv, drain_at = D_copy, fill_at = F_test, bufferedAmount = b,
      mtrace = [], ftrace = []\<rparr>"

section \<open>Auxiliary definitions\<close>

subsection \<open>Reading a list of effects\<close>

text \<open>The calls that reach the RTCPeerConnection (the transport endpoint).\<close>

fun touches_pc :: "effect \<Rightarrow> bool" where
  "touches_pc (NewPeerConnection i) = True"
| "touches_pc CreateOffer = True"
| "touches_pc CreateAnswer = True"
| "touches_pc (SetLocalDescription v) = True"
| "touches_pc (SetRemoteDescription v) = True"
| "touches_pc (AddIceCandidate v) = True"
| "touches_pc (WsNew u p) = False"
| "touches_pc (WsSend m) = False"
| "touches_pc (WsClose c) = False"
| "touches_pc (Uncaught x) = False"

subsection \<open>What holds of every session the constructor and the event loop produce\<close>

text \<open>
  \<open>ready\<close>: the three objects the sealed-message handlers and the callbacks test for.
  \<open>idle\<close>: no callback is registered or suspended.
\<close>

definition ready :: "wormhole \<Rightarrow> bool" where
  "ready w \<longleftrightarrow> ws w \<and> pc w \<and> key w \<noteq> None"

definition idle :: "wormhole \<Rightarrow> bool" where
  "idle w \<longleftrightarrow> deferred w = [] \<and> awaiting w = []"

definition session_inv :: "wormhole \<Rightarrow> bool" where
  "session_inv w =
     (case state w of
        S_a \<Rightarrow> idle w \<and> key w = None
      | S_b \<Rightarrow> idle w \<and> key w = None
      | S_wait_for_pake_a \<Rightarrow> pc w \<and> idle w \<and> key w = None
      | S_wait_for_pake_b \<Rightarrow> pc w \<and> idle w \<and> key w = None
      | S_wait_for_pc_initialize \<Rightarrow> ready w
      | S_wait_for_webtc_offer \<Rightarrow> ready w
      | S_wait_for_webtc_answer \<Rightarrow> ready w
      | S_wait_for_candidates \<Rightarrow> ready w
      | S_wait_for_local_offer \<Rightarrow> False
      | S_wait_for_local_answer \<Rightarrow> False
      | S_error \<Rightarrow> idle w \<or> ready w)"

text \<open>
  \<open>flushed\<close>: once \<open>finishPromise\<close> is fulfilled, no callback is left registered on it.
\<close>

definition flushed :: "wormhole \<Rightarrow> bool" where
  "flushed w \<longleftrightarrow> (finishPromise w = Fulfilled () \<longrightarrow> deferred w = [])"

subsection \<open>A sample host\<close>

text \<open>
  A host on which the model is evaluated: its \<open>seal\<close> prefixes \<open>s:\<close>, its \<open>open\<close> accepts
  exactly the messages with that prefix, and its \<open>JSON.parse\<close> reads the broker's
  announcement, an offer and an answer, and throws on every other text.
\<close>

definition sample_url :: url where
  "sample_url = \<lparr>protocol = ''https:'', host = ''example.org'', pathname = ''/''\<rparr>"

definition hello_text :: string where
  "hello_text = ''{\"slot\":\"7\",\"iceServers\":[]}''"

definition hello_json :: json where
  "hello_json = JObj [(''slot'', JStr ''7''), (''iceServers'', JArr [])]"

definition offer_text :: string where
  "offer_text = ''{\"type\":\"offer\",\"sdp\":\"o\"}''"

definition offer_json :: json where
  "offer_json = JObj [(''type'', JStr ''offer''), (''sdp'', JStr ''o'')]"

definition answer_text :: string where
  "answer_text = ''{\"type\":\"answer\",\"sdp\":\"a\"}''"

definition answer_json :: json where
  "answer_json = JObj [(''type'', JStr ''answer''), (''sdp'', JStr ''a'')]"

definition sample_env :: env where
  "sample_env =
     \<lparr>ww_decode = (\<lambda>c. (JsInt 7, [1, 2])),
      ww_encode = (\<lambda>n p. ''7-code''),
      ww_start = (\<lambda>p. Some ''msgA''),
      ww_exchange = (\<lambda>p m. (Some [42], ''msgB'')),
      ww_finish = (\<lambda>m. Some [42]),
      ww_open = (\<lambda>k m. if take 2 m = ''s:'' then Some (drop 2 m) else None),
      ww_seal = (\<lambda>k m. ''s:'' @ m),
      ww_fingerprint = (\<lambda>k. k),
      URL_new = (\<lambda>u. Some sample_url),
      JSON_parse = (\<lambda>s. if s = hello_text then Some hello_json
                         else if s = offer_text then Some offer_json
                         else if s = answer_text then Some answer_json
                         else None),
      JSON_stringify = (\<lambda>j. if j = offer_json then offer_text
                             else if j = answer_json then answer_text
                             else ''null''),
      parseInt = (\<lambda>j. case j of Some (JStr ''7'') \<Rightarrow> JsInt 7 | _ \<Rightarrow> JsNaN),
      getRandomValues = (\<lambda>n. [0, 0]),
      RTCPeerConnection_new = (\<lambda>i. True)\<rparr>"

subsection \<open>The two roles\<close>

text \<open>
  What holds of a session constructed with a code (the slot-joiner), and of one
  constructed without (the slot-creator): the states it can be in and the callbacks it
  can have registered or suspended.
\<close>

definition joiner_inv :: "wormhole \<Rightarrow> bool" where
  "joiner_inv w \<longleftrightarrow>
     state w \<in> {S_b, S_wait_for_pake_b, S_wait_for_webtc_offer, S_wait_for_candidates, S_error}
     \<and> SendOffer \<notin> set (deferred w)
     \<and> AwaitCreateOffer \<notin> set (awaiting w)"

definition creator_inv :: "wormhole \<Rightarrow> bool" where
  "creator_inv w \<longleftrightarrow>
     state w \<in> {S_a, S_wait_for_pake_a, S_wait_for_pc_initialize, S_wait_for_webtc_answer,
                 S_wait_for_candidates, S_error}
     \<and> (\<forall>m. SendAnswer m \<notin> set (deferred w))
     \<and> AwaitSetRemoteDescription \<notin> set (awaiting w)
     \<and> AwaitCreateAnswer \<notin> set (awaiting w)"

subsection \<open>Sample sessions\<close>

text \<open>
  The two sessions the constructor returns on the sample host, the sessions they are
  once the key is derived, the slot-creator after it has failed on a message it did not
  expect, and the events of a complete handshake of each.
\<close>

definition creator_session :: "wormhole \<times> effect list" where
  "creator_session =
     (blank\<lparr>pass := [0, 0], state := S_a, ws := True\<rparr>, [WsNew ''wss://example.org/'' ''4''])"

definition joiner_session :: "wormhole \<times> effect list" where
  "joiner_session =
     (blank\<lparr>slot := Some (JsInt 7), pass := [1, 2], state := S_b, ws := True\<rparr>,
      [WsNew ''wss://example.org/7'' ''4''])"

definition creator_keyed :: wormhole where
  "creator_keyed =
     \<lparr>pass = [0, 0], state = S_wait_for_pc_initialize, slot = Some (JsInt 7), pc = True,
      ws = True, key = Some [42], signalPromise = Fulfilled (Some ''7-code''),
      finishPromise = Pending, donePromise = Pending, deferred = [SendOffer], awaiting = []\<rparr>"

definition joiner_keyed :: wormhole where
  "joiner_keyed =
     \<lparr>pass = [1, 2], state = S_wait_for_webtc_offer, slot = Some (JsInt 7), pc = True,
      ws = True, key = Some [42], signalPromise = Fulfilled None,
      finishPromise = Pending, donePromise = Pending, deferred = [], awaiting = []\<rparr>"

definition creator_failed :: wormhole where
  "creator_failed =
     \<lparr>pass = [0, 0], state = S_error, slot = Some (JsInt 7), pc = True,
      ws = True, key = Some [42], signalPromise = Fulfilled (Some ''7-code''),
      finishPromise = Pending, donePromise = Rejected ''unexpected message'',
      deferred = [SendOffer], awaiting = []\<rparr>"

definition joiner_events :: "event list" where
  "joiner_events =
     [Message hello_text, Message ''B'', Message (''s:'' @ offer_text), Finish, Settled 0 (Some JNull),
      Settled 0 (Some answer_json)]"

definition creator_events :: "event list" where
  "creator_events =
     [Message hello_text, Message ''A'', Finish, Settled 0 (Some offer_json),
      Message (''s:'' @ answer_text)]"

subsection \<open>Reading the calls of dial\<close>

text \<open>
  The endpoints allocated, in order; the calls up to and including the first request;
  the results under which \<open>dial\<close> reaches its \<open>switch\<close> with the description \<open>remote\<close>,
  and those under which the counter-offer branch runs to its end; the outcome of the
  final \<open>select\<close> on endpoint \<open>n\<close>.
\<close>

fun allocations :: "call list \<Rightarrow> nat list" where
  "allocations [] = []"
| "allocations (NewPeerConnection_call n # cs) = n # allocations cs"
| "allocations (c # cs) = allocations cs"

definition first_calls :: "SessionDescription \<Rightarrow> string \<Rightarrow> string \<Rightarrow> call list" where
  "first_calls offer target body =
     [NewPeerConnection_call 1, CreateDataChannel_call 1, OnOpen_call 1, OnError_call 1,
      OnBufferedAmountLow_call 1, SetBufferedAmountLowThreshold_call 1 lowWaterMark,
      CreateOffer_call 1, SetLocalDescription_call 1 offer, Post_call target body]"

definition reaches_switch ::
  "pion \<Rightarrow> string \<Rightarrow> SessionDescription \<Rightarrow> string \<Rightarrow> SessionDescription \<Rightarrow> bool" where
  "reaches_switch P target offer body remote \<longleftrightarrow>
     NewPeerConnection_result P 1 = None
     \<and> CreateDataChannel_result P 1 = None
     \<and> CreateOffer_result P 1 = Inr offer
     \<and> SetLocalDescription_result P 1 offer = None
     \<and> Marshal_result P offer = Inr body
     \<and> (case Post_result P 1 target body of
          Inl e \<Rightarrow> False
        | Inr res \<Rightarrow> StatusCode res = StatusOK \<and> Decode_result P (Body res) = Inr remote)"

definition answers_with ::
  "pion \<Rightarrow> string \<Rightarrow> SessionDescription \<Rightarrow> SessionDescription \<Rightarrow> string \<Rightarrow> bool" where
  "answers_with P target remote answer a \<longleftrightarrow>
     NewPeerConnection_result P 2 = None
     \<and> CreateDataChannel_result P 2 = None
     \<and> SetRemoteDescription_result P 2 remote = None
     \<and> CreateAnswer_result P 2 = Inr answer
     \<and> SetLocalDescription_result P 2 answer = None
     \<and> Marshal_result P answer = Inr a
     \<and> (case Post_result P 2 target a of
          Inl e \<Rightarrow> False
        | Inr res \<Rightarrow> StatusCode res = StatusOK)"

definition selected_outcome :: "pion \<Rightarrow> nat \<Rightarrow> conn outcome" where
  "selected_outcome P n =
     (case select_result P of
        Opened \<Rightarrow> Returns \<lparr>conn_pc = n, conn_d = n\<rparr>
      | Errored e \<Rightarrow> Fails (Err e)
      | Blocked \<Rightarrow> Never_returns)"

subsection \<open>Reading the history of the pump\<close>

text \<open>
  The directions whose value \<open>main\<close> received on \<open>done\<close>, in order, and whether a
  direction has passed its value (it is then at its end).
\<close>

fun received :: "main_action list \<Rightarrow> direction list" where
  "received [] = []"
| "received (Recv_done d # as) = d # received as"
| "received (a # as) = received as"

definition reported :: "direction \<Rightarrow> pump \<Rightarrow> bool" where
  "reported d s = (case d of Drain \<Rightarrow> drain_at s = D_end | Fill \<Rightarrow> fill_at s = F_end)"

text \<open>
  What may come directly before an action of \<open>main\<close>: \<open>follows pre a\<close> holds when \<open>a\<close>
  may be done after the actions \<open>pre\<close>. A history is in order when every action in it
  follows the ones before it. \<open>main_inv\<close> ties the history to the location of \<open>main\<close>
  and to the directions that have passed their value on \<open>done\<close>.
\<close>

definition follows :: "main_action list \<Rightarrow> main_action \<Rightarrow> bool" where
  "follows pre a \<longleftrightarrow>
     (a = Close_rwc \<longrightarrow> pre \<noteq> [] \<and> last pre = Observe 0)
     \<and> (a = Close_d \<longrightarrow> pre \<noteq> [] \<and> last pre = Close_rwc)
     \<and> (a = Close_pc \<longrightarrow> pre \<noteq> [] \<and> last pre = Close_d)
     \<and> ((\<exists>d. a = Recv_done d) \<longrightarrow> pre = [])
     \<and> ((\<exists>d. a = Recv_done d) \<or> pre \<noteq> [])"

definition history_ok :: "main_action list \<Rightarrow> bool" where
  "history_ok tr \<longleftrightarrow> (\<forall>pre a post. tr = pre @ a # post \<longrightarrow> follows pre a)"

definition main_inv :: "pump \<Rightarrow> bool" where
  "main_inv s \<longleftrightarrow>
     history_ok (mtrace s)
     \<and> (case main_at s of
          M_recv \<Rightarrow> mtrace s = []
        | M_poll \<Rightarrow> mtrace s \<noteq> [] \<and> last (mtrace s) \<notin> {Observe 0, Close_rwc, Close_d, Close_pc}
        | M_close_rwc \<Rightarrow> mtrace s \<noteq> [] \<and> last (mtrace s) = Observe 0
        | M_close_d \<Rightarrow> mtrace s \<noteq> [] \<and> last (mtrace s) = Close_rwc
        | M_close_pc \<Rightarrow> mtrace s \<noteq> [] \<and> last (mtrace s) = Close_d
        | M_exit \<Rightarrow> mtrace s \<noteq> [] \<and> last (mtrace s) = Close_pc)
     \<and> (\<forall>d. Recv_done d \<in> set (mtrace s) \<longrightarrow> reported d s)"

text \<open>
  A write is in order when it was issued with at most the low-water mark buffered and
  carries a chunk of at most 32 KiB. \<open>fill_inv\<close>: between the test and the write the
  buffered amount is not above the mark, and every write so far was in order.
\<close>

fun write_ok :: "fill_action \<Rightarrow> bool" where
  "write_ok (Write n b) = (b \<le> lowWaterMark \<and> 0 < n \<and> n \<le> chunkSize)"

definition fill_inv :: "pump \<Rightarrow> bool" where
  "fill_inv s \<longleftrightarrow>
     (case fill_at s of
        F_read \<Rightarrow> bufferedAmount s \<le> lowWaterMark
      | F_write nr er \<Rightarrow> bufferedAmount s \<le> lowWaterMark \<and> 0 < nr \<and> nr \<le> chunkSize
      | _ \<Rightarrow> True)
     \<and> list_all write_ok (ftrace s)"

subsection \<open>A sample broker and sample schedules\<close>

text \<open>
  A library and broker on which every call succeeds and the first response carries a
  description of the type named by its body. Three schedules of the pump: one where the
  receive end finishes first, one where the send end does, one that starts with more
  than the low-water mark buffered.
\<close>

definition sample_offer :: SessionDescription where
  "sample_offer = \<lparr>sd_Type = SDPTypeOffer, sd_SDP = ''local offer''\<rparr>"

definition sample_answer :: SessionDescription where
  "sample_answer = \<lparr>sd_Type = SDPTypeAnswer, sd_SDP = ''local answer''\<rparr>"

definition sample_remote :: "string \<Rightarrow> SessionDescription" where
  "sample_remote b =
     \<lparr>sd_Type = (if b = ''offer'' then SDPTypeOffer
                 else if b = ''answer'' then SDPTypeAnswer else SDPTypeOther b),
      sd_SDP = ''remote''\<rparr>"

definition sample_pion :: "string \<Rightarrow> pion" where
  "sample_pion b =
     \<lparr>NewPeerConnection_result = (\<lambda>n. None),
      CreateDataChannel_result = (\<lambda>n. None),
      CreateOffer_result = (\<lambda>n. Inr sample_offer),
      CreateAnswer_result = (\<lambda>n. Inr sample_answer),
      SetLocalDescription_result = (\<lambda>n d. None),
      SetRemoteDescription_result = (\<lambda>n d. None),
      Marshal_result = (\<lambda>d. Inr (sd_SDP d)),
      Post_result = (\<lambda>n u body. Inr \<lparr>StatusCode = 200, Status = ''200 OK'', Body = b\<rparr>),
      Decode_result = (\<lambda>body. Inr (sample_remote body)),
      select_result = Opened\<rparr>"

definition drain_first :: "pump_event list" where
  "drain_first =
     [Fill_tests, Read_returns 100 No_error, Copy_returns, Send_done Drain,
      Main_runs, Main_runs, Main_runs, Main_runs]"

definition fill_first :: "pump_event list" where
  "fill_first =
     [Fill_tests, Read_returns 5 EOF, Write_returns 5 False, Send_done Fill,
      Main_runs, Transport_sends 5, Main_runs, Main_runs, Main_runs, Main_runs]"

definition above_mark :: "pump_event list" where
  "above_mark =
     [Fill_tests, Read_returns 40000 No_error, Transport_sends 1, Fill_tests, Flushed,
      Fill_tests, Read_returns 40000 No_error, Write_returns 32768 False]"

section \<open>Properties of the signalling session\<close>

lemmas sample_texts =
  hello_text_def hello_json_def offer_text_def offer_json_def answer_text_def answer_json_def

subsection \<open>Invariant of the event loop\<close>

text \<open>
  The handlers keep \<open>session_inv\<close>: a session that waits for a sealed message, or has a
  callback registered or suspended, has its WebSocket, its endpoint and its key.
\<close>

lemma inv_busy: "session_inv w \<Longrightarrow> \<not> idle w \<Longrightarrow> ready w"
  by (cases "state w") (simp_all add: session_inv_def)

lemma inv_keep:
  "session_inv w \<Longrightarrow> state w' = state w \<Longrightarrow> pc w' = pc w \<Longrightarrow> ws w' = ws w \<Longrightarrow> key w' = key w
   \<Longrightarrow> (idle w \<Longrightarrow> idle w') \<Longrightarrow> session_inv w'"
  by (cases "state w") (auto simp: session_inv_def ready_def)

lemma inv_keep_ready:
  "session_inv w \<Longrightarrow> state w' = state w \<Longrightarrow> pc w' = pc w \<Longrightarrow> ws w' = ws w \<Longrightarrow> key w' = key w
   \<Longrightarrow> ready w \<Longrightarrow> session_inv w'"
  by (cases "state w") (auto simp: session_inv_def ready_def)

lemma run_task_frame:
  "run_task t w = (w', es) \<Longrightarrow>
     state w' = state w \<and> key w' = key w \<and> ws w' = ws w \<and> pc w' = pc w
     \<and> deferred w' = deferred w
     \<and> (awaiting w' = awaiting w \<or> ready w)"
  by (cases t) (auto simp: ready_def split: if_splits)

lemma run_tasks_frame:
  "run_tasks ts (w, es) = (w', es') \<Longrightarrow>
     state w' = state w \<and> key w' = key w \<and> ws w' = ws w \<and> pc w' = pc w
     \<and> deferred w' = deferred w
     \<and> (awaiting w' = awaiting w \<or> ready w)"
proof (induction ts arbitrary: w es)
  case Nil
  then show ?case by simp
next
  case (Cons t ts)
  obtain w1 es1 where t: "run_task t w = (w1, es1)" by (cases "run_task t w")
  with Cons.prems have r: "run_tasks ts (w1, es @ es1) = (w', es')" by simp
  from run_task_frame [OF t] Cons.IH [OF r] show ?case by (auto simp: ready_def)
qed

lemma flush_inv:
  assumes "flush (w, es) = (w', es')" and "session_inv w"
  shows "session_inv w'"
proof (cases "finishPromise w = Fulfilled ()")
  case False
  with assms show ?thesis by (simp add: flush_def)
next
  case True
  let ?w0 = "w\<lparr>deferred := []\<rparr>"
  from True assms have r: "run_tasks (deferred w) (?w0, es) = (w', es')"
    by (simp add: flush_def)
  have i0: "session_inv ?w0"
    by (rule inv_keep [OF assms(2)]) (simp_all add: idle_def)
  from run_tasks_frame [OF r] have
    f: "state w' = state ?w0" "pc w' = pc ?w0" "ws w' = ws ?w0" "key w' = key ?w0"
    and d: "deferred w' = deferred ?w0"
    and g: "awaiting w' = awaiting ?w0 \<or> ready ?w0"
    by blast+
  from g show ?thesis
  proof
    assume "awaiting w' = awaiting ?w0"
    with d have "idle ?w0 \<Longrightarrow> idle w'" by (simp add: idle_def)
    with i0 f show ?thesis by (rule inv_keep)
  next
    assume "ready ?w0"
    with i0 f show ?thesis by (rule inv_keep_ready)
  qed
qed

lemma fail_inv: "session_inv w \<Longrightarrow> session_inv (fail r w)"
  by (cases "state w") (auto simp: session_inv_def fail_def idle_def ready_def)

lemmas inv_simps = session_inv_def idle_def ready_def fail_def

lemma on_a_inv:
  "on_a env w d = (w', es) \<Longrightarrow> state w = S_a \<Longrightarrow> session_inv w \<Longrightarrow> session_inv w'"
  by (auto simp: on_a_def makePeerConnection_def Let_def inv_simps
      split: option.splits if_splits)

lemma on_b_inv:
  "on_b env w d = (w', es) \<Longrightarrow> state w = S_b \<Longrightarrow> session_inv w \<Longrightarrow> session_inv w'"
  by (auto simp: on_b_def makePeerConnection_def Let_def inv_simps
      split: option.splits if_splits)

lemma on_wait_for_pake_a_inv:
  "on_wait_for_pake_a env w d = (w', es) \<Longrightarrow> state w = S_wait_for_pake_a \<Longrightarrow> ws w
   \<Longrightarrow> session_inv w \<Longrightarrow> session_inv w'"
  by (auto simp: on_wait_for_pake_a_def Let_def inv_simps
      split: option.splits if_splits prod.splits)

lemma on_wait_for_pake_b_inv:
  "on_wait_for_pake_b env w d = (w', es) \<Longrightarrow> state w = S_wait_for_pake_b \<Longrightarrow> ws w
   \<Longrightarrow> session_inv w \<Longrightarrow> session_inv w'"
  by (auto simp: on_wait_for_pake_b_def Let_def inv_simps
      split: option.splits if_splits)

lemma on_wait_for_webtc_offer_inv:
  "on_wait_for_webtc_offer env w d = (w', es) \<Longrightarrow> state w = S_wait_for_webtc_offer
   \<Longrightarrow> session_inv w \<Longrightarrow> session_inv w'"
  by (auto simp: on_wait_for_webtc_offer_def bad_key_def inv_simps
      split: option.splits if_splits)

lemma on_wait_for_webtc_answer_inv:
  "on_wait_for_webtc_answer env w d = (w', es) \<Longrightarrow> state w = S_wait_for_webtc_answer
   \<Longrightarrow> session_inv w \<Longrightarrow> session_inv w'"
  by (auto simp: on_wait_for_webtc_answer_def bad_key_def inv_simps
      split: option.splits if_splits)

lemma on_wait_for_candidates_inv:
  "on_wait_for_candidates env w d = (w', es) \<Longrightarrow> state w = S_wait_for_candidates
   \<Longrightarrow> session_inv w \<Longrightarrow> session_inv w'"
  by (auto simp: on_wait_for_candidates_def bad_key_def inv_simps
      split: option.splits if_splits)

lemma onmessage_inv:
  assumes "onmessage env w d = (w', es)" and "session_inv w"
  shows "session_inv w'"
proof (cases "ws w")
  case False
  with assms show ?thesis by (simp add: onmessage_def)
next
  case True
  show ?thesis
  proof (cases "state w")
    case S_a
    with True assms show ?thesis by (simp add: onmessage_def on_a_inv)
  next
    case S_b
    with True assms show ?thesis by (simp add: onmessage_def on_b_inv)
  next
    case S_wait_for_pake_a
    with True assms show ?thesis by (simp add: onmessage_def on_wait_for_pake_a_inv)
  next
    case S_wait_for_pake_b
    with True assms show ?thesis by (simp add: onmessage_def on_wait_for_pake_b_inv)
  next
    case S_wait_for_webtc_offer
    with True assms show ?thesis by (simp add: onmessage_def on_wait_for_webtc_offer_inv)
  next
    case S_wait_for_webtc_answer
    with True assms show ?thesis by (simp add: onmessage_def on_wait_for_webtc_answer_inv)
  next
    case S_wait_for_candidates
    with True assms show ?thesis by (simp add: onmessage_def on_wait_for_candidates_inv)
  next
    case S_wait_for_pc_initialize
    with True assms show ?thesis by (auto simp: onmessage_def fail_inv)
  next
    case S_wait_for_local_offer
    with True assms show ?thesis by (auto simp: onmessage_def fail_inv)
  next
    case S_wait_for_local_answer
    with True assms show ?thesis by (auto simp: onmessage_def fail_inv)
  next
    case S_error
    with True assms show ?thesis by (auto simp: onmessage_def)
  qed
qed

lemma resume_inv:
  "resume env s v w = (w', es) \<Longrightarrow> ready w \<Longrightarrow> session_inv w
   \<Longrightarrow> state w \<notin> {S_a, S_b, S_wait_for_pake_a, S_wait_for_pake_b} \<Longrightarrow> session_inv w'"
  by (cases "(env, s, v, w)" rule: resume.cases; cases "state w")
     (auto simp: inv_simps split: option.splits)

lemma settle_inv:
  assumes "settle env i v w = (w', es)" and "session_inv w"
  shows "session_inv w'"
proof (cases "i < length (awaiting w)")
  case False
  with assms show ?thesis by (simp add: settle_def)
next
  case True
  let ?w1 = "w\<lparr>awaiting := take i (awaiting w) @ drop (Suc i) (awaiting w)\<rparr>"
  from True have "\<not> idle w" by (auto simp: idle_def)
  with assms(2) have g: "ready w" by (rule inv_busy)
  then have g1: "ready ?w1" by (simp add: ready_def)
  have st: "state w \<notin> {S_a, S_b, S_wait_for_pake_a, S_wait_for_pake_b}"
    using assms(2) \<open>\<not> idle w\<close> by (cases "state w") (auto simp: session_inv_def)
  have i1: "session_inv ?w1"
    using assms(2) g st by (cases "state w") (auto simp: inv_simps)
  from True assms(1) have "resume env (awaiting w ! i) v ?w1 = (w', es)"
    by (simp add: settle_def)
  from resume_inv [OF this g1 i1] st show ?thesis by simp
qed

lemma onclose_inv: "session_inv w \<Longrightarrow> session_inv (onclose w c r)"
  by (simp add: onclose_def fail_inv)

lemma onicecandidate_same: "fst (onicecandidate env w c) = w"
  by (simp add: onicecandidate_def split: option.splits)

lemma finish_inv: "session_inv w \<Longrightarrow> session_inv (finish w)"
  by (erule inv_keep) (simp_all add: finish_def idle_def)

lemma handle_inv:
  assumes "handle env w e = (w', es)" and "session_inv w"
  shows "session_inv w'"
proof (cases e)
  case (Message d)
  with assms(1) have "onmessage env w d = (w', es)" by simp
  then show ?thesis using assms(2) by (rule onmessage_inv)
next
  case (Close c r)
  with assms(1) have "w' = onclose w c r" by simp
  with assms(2) show ?thesis by (simp add: onclose_inv)
next
  case Error
  with assms(1) have "w' = fail ''could not connect to signalling server'' w"
    by (simp add: onerror_def)
  with assms(2) show ?thesis by (simp add: fail_inv)
next
  case Finish
  with assms(1) have "w' = finish w" by simp
  with assms(2) show ?thesis by (simp add: finish_inv)
next
  case (Settled i v)
  with assms(1) have "settle env i v w = (w', es)" by simp
  then show ?thesis using assms(2) by (rule settle_inv)
next
  case (IceCandidate c)
  with assms(1) have "onicecandidate env w c = (w', es)" by simp
  with onicecandidate_same [of env w c] have "w' = w" by simp
  with assms(2) show ?thesis by simp
qed

lemma step_inv:
  assumes "step env w e = (w', es)" and "session_inv w"
  shows "session_inv w'"
proof -
  obtain w1 es1 where h: "handle env w e = (w1, es1)" by (cases "handle env w e")
  with assms(1) have f: "flush (w1, es1) = (w', es)" by (simp add: step_def)
  from handle_inv [OF h assms(2)] flush_inv [OF f] show ?thesis by blast
qed

lemma run_inv:
  "run env evs (w, tr) = (w', tr') \<Longrightarrow> session_inv w \<Longrightarrow> session_inv w'"
proof (induction evs arbitrary: w tr)
  case Nil
  then show ?case by simp
next
  case (Cons e evs)
  obtain w1 out where s: "step env w e = (w1, out)" by (cases "step env w e")
  with Cons.prems(1) have r: "run env evs (w1, tr @ out) = (w', tr')" by simp
  from step_inv [OF s Cons.prems(2)] Cons.IH [OF r] show ?case by blast
qed

lemma new_inv:
  "Wormhole_new env srv code = Inr (w, tr) \<Longrightarrow> session_inv w"
  by (auto simp: Wormhole_new_def dial_def blank_def inv_simps
      split: if_splits prod.splits option.splits)

lemma reachable_inv:
  assumes "Wormhole_new env srv code = Inr r0" and "run env evs r0 = (w, tr)"
  shows "session_inv w"
proof -
  obtain w0 tr0 where r0: "r0 = (w0, tr0)" by (cases r0)
  from assms(1) r0 have "session_inv w0" by (simp add: new_inv)
  with assms(2) r0 show ?thesis by (auto intro: run_inv)
qed

lemma reachable_ready:
  assumes "Wormhole_new env srv code = Inr r0" and "run env evs r0 = (w, tr)"
    and "state w \<in> {S_wait_for_pc_initialize, S_wait_for_webtc_offer,
                     S_wait_for_webtc_answer, S_wait_for_candidates}"
  shows "ws w \<and> pc w \<and> key w \<noteq> None"
  using reachable_inv [OF assms(1,2)] assms(3)
  by (auto simp: session_inv_def ready_def)

subsection \<open>wsserver and onclose\<close>



text \<open>
  Claim C10. When the WebSocket closes with code 4004 or 1001 the session is left as
  it is: no transition to \<open>error\<close>, no promise rejected. On every close code outside
  \<open>{4000, 4001, 4002, 4003, 4004, 1001}\<close> the session fails: both promises are
  rejected (where still pending) with the reason
  \<open>websocket session closed: <reason> (<code>)\<close> and the state becomes \<open>error\<close>.
\<close>

theorem onclose_codes:
  "(code = 4004 \<or> code = 1001 \<longrightarrow> onclose w code reason = w)
   \<and> (code \<notin> {4000, 4001, 4002, 4003, 4004, 1001} \<longrightarrow>
        onclose w code reason =
          w\<lparr>signalPromise :=
               reject (''websocket session closed: '' @ reason @ '' ('' @ show_nat code @ '')'')
                 (signalPromise w),
             donePromise :=
               reject (''websocket session closed: '' @ reason @ '' ('' @ show_nat code @ '')'')
                 (donePromise w),
             state := S_error\<rparr>)"
  by (simp add: onclose_def fail_def)

theorem onclose_codes_witness:
  "onclose (blank\<lparr>state := S_wait_for_candidates\<rparr>) 4004 ''peer hung up''
     = blank\<lparr>state := S_wait_for_candidates\<rparr>
   \<and> onclose (blank\<lparr>state := S_wait_for_candidates\<rparr>) 1006 ''gone''
     = blank\<lparr>signalPromise := Rejected ''websocket session closed: gone (1006)'',
             donePromise := Rejected ''websocket session closed: gone (1006)'',
             state := S_error\<rparr>"
  using onclose_codes [of 4004 "blank\<lparr>state := S_wait_for_candidates\<rparr>" "''peer hung up''"]
    onclose_codes [of 1006 "blank\<lparr>state := S_wait_for_candidates\<rparr>" "''gone''"]
  by (simp add: blank_def reject_def show_nat.simps)

subsection \<open>The joiner never offers, the creator never answers\<close>

lemma run_task_joiner:
  "run_task t w = (w', es) \<Longrightarrow> t \<noteq> SendOffer \<Longrightarrow> joiner_inv w \<Longrightarrow>
     joiner_inv w' \<and> CreateOffer \<notin> set es \<and> deferred w' = deferred w"
  by (cases t) (auto simp: joiner_inv_def split: if_splits)

lemma run_tasks_joiner:
  "run_tasks ts (w, es) = (w', es') \<Longrightarrow> SendOffer \<notin> set ts \<Longrightarrow> joiner_inv w \<Longrightarrow>
     CreateOffer \<notin> set es \<Longrightarrow>
     joiner_inv w' \<and> CreateOffer \<notin> set es' \<and> deferred w' = deferred w"
proof (induction ts arbitrary: w es)
  case Nil
  then show ?case by simp
next
  case (Cons t ts)
  obtain w1 es1 where t: "run_task t w = (w1, es1)" by (cases "run_task t w")
  with Cons.prems(1) have r: "run_tasks ts (w1, es @ es1) = (w', es')" by simp
  from Cons.prems(2) have nt: "t \<noteq> SendOffer" "SendOffer \<notin> set ts" by auto
  from run_task_joiner [OF t nt(1) Cons.prems(3)]
  have j1: "joiner_inv w1" and e1: "CreateOffer \<notin> set es1" and d1: "deferred w1 = deferred w"
    by auto
  from e1 Cons.prems(4) have e2: "CreateOffer \<notin> set (es @ es1)" by simp
  from Cons.IH [OF r nt(2) j1 e2] d1 show ?case by simp
qed

lemma flush_joiner:
  assumes "flush (w, es) = (w', es')" and "joiner_inv w" and "CreateOffer \<notin> set es"
  shows "joiner_inv w' \<and> CreateOffer \<notin> set es'"
proof (cases "finishPromise w = Fulfilled ()")
  case False
  with assms show ?thesis by (simp add: flush_def)
next
  case True
  let ?w0 = "w\<lparr>deferred := []\<rparr>"
  from True assms(1) have r: "run_tasks (deferred w) (?w0, es) = (w', es')"
    by (simp add: flush_def)
  from assms(2) have n: "SendOffer \<notin> set (deferred w)" and j0: "joiner_inv ?w0"
    by (simp_all add: joiner_inv_def)
  from run_tasks_joiner [OF r n j0 assms(3)] show ?thesis by simp
qed

lemma fail_joiner: "joiner_inv w \<Longrightarrow> joiner_inv (fail r w)"
  by (simp add: joiner_inv_def fail_def)

lemma onmessage_joiner:
  assumes "onmessage env w d = (w', es)" and "joiner_inv w"
  shows "joiner_inv w' \<and> CreateOffer \<notin> set es"
proof (cases "ws w")
  case False
  with assms show ?thesis by (simp add: onmessage_def)
next
  case True
  from assms(2) consider "state w = S_b" | "state w = S_wait_for_pake_b"
    | "state w = S_wait_for_webtc_offer" | "state w = S_wait_for_candidates" | "state w = S_error"
    by (auto simp: joiner_inv_def)
  then show ?thesis
  proof cases
    case 1
    with True assms show ?thesis
      by (auto simp: onmessage_def on_b_def makePeerConnection_def Let_def joiner_inv_def fail_def
          split: option.splits if_splits)
  next
    case 2
    with True assms show ?thesis
      by (auto simp: onmessage_def on_wait_for_pake_b_def Let_def joiner_inv_def fail_def
          split: option.splits if_splits)
  next
    case 3
    with True assms show ?thesis
      by (auto simp: onmessage_def on_wait_for_webtc_offer_def bad_key_def joiner_inv_def fail_def
          split: option.splits if_splits)
  next
    case 4
    with True assms show ?thesis
      by (auto simp: onmessage_def on_wait_for_candidates_def bad_key_def joiner_inv_def fail_def
          split: option.splits if_splits)
  next
    case 5
    with True assms show ?thesis by (simp add: onmessage_def)
  qed
qed

lemma resume_joiner:
  "resume env s v w = (w', es) \<Longrightarrow> s \<noteq> AwaitCreateOffer \<Longrightarrow> joiner_inv w \<Longrightarrow>
     joiner_inv w' \<and> CreateOffer \<notin> set es"
  by (cases "(env, s, v, w)" rule: resume.cases)
     (auto simp: joiner_inv_def split: option.splits)

lemma settle_joiner:
  assumes "settle env i v w = (w', es)" and "joiner_inv w"
  shows "joiner_inv w' \<and> CreateOffer \<notin> set es"
proof (cases "i < length (awaiting w)")
  case False
  with assms show ?thesis by (simp add: settle_def)
next
  case True
  let ?w1 = "w\<lparr>awaiting := take i (awaiting w) @ drop (Suc i) (awaiting w)\<rparr>"
  from assms(2) have n: "AwaitCreateOffer \<notin> set (awaiting w)" by (simp add: joiner_inv_def)
  with True have s: "awaiting w ! i \<noteq> AwaitCreateOffer" by (metis nth_mem)
  have "set (take i (awaiting w) @ drop (Suc i) (awaiting w)) \<subseteq> set (awaiting w)"
    using set_take_subset set_drop_subset by fastforce
  with n assms(2) have j1: "joiner_inv ?w1" by (auto simp: joiner_inv_def)
  from True assms(1) have "resume env (awaiting w ! i) v ?w1 = (w', es)"
    by (simp add: settle_def)
  from resume_joiner [OF this s j1] show ?thesis .
qed

lemma onclose_joiner: "joiner_inv w \<Longrightarrow> joiner_inv (onclose w c r)"
  by (simp add: onclose_def fail_joiner)

lemma handle_joiner:
  assumes "handle env w e = (w', es)" and "joiner_inv w"
  shows "joiner_inv w' \<and> CreateOffer \<notin> set es"
proof (cases e)
  case (Message d)
  with assms(1) have "onmessage env w d = (w', es)" by simp
  then show ?thesis using assms(2) by (rule onmessage_joiner)
next
  case (Close c r)
  with assms(1) have "w' = onclose w c r" "es = []" by simp_all
  with assms(2) show ?thesis by (simp add: onclose_joiner)
next
  case Error
  with assms(1) have "w' = fail ''could not connect to signalling server'' w" "es = []"
    by (simp_all add: onerror_def)
  with assms(2) show ?thesis by (simp add: fail_joiner)
next
  case Finish
  with assms(1) have "w' = finish w" "es = []" by simp_all
  with assms(2) show ?thesis by (simp add: finish_def joiner_inv_def)
next
  case (Settled i v)
  with assms(1) have "settle env i v w = (w', es)" by simp
  then show ?thesis using assms(2) by (rule settle_joiner)
next
  case (IceCandidate c)
  with assms(1) have o: "onicecandidate env w c = (w', es)" by simp
  with onicecandidate_same [of env w c] have "w' = w" by simp
  moreover from o have "CreateOffer \<notin> set es"
    by (auto simp: onicecandidate_def split: option.splits if_splits)
  ultimately show ?thesis using assms(2) by simp
qed

lemma step_joiner:
  assumes "step env w e = (w', es)" and "joiner_inv w"
  shows "joiner_inv w' \<and> CreateOffer \<notin> set es"
proof -
  obtain w1 es1 where h: "handle env w e = (w1, es1)" by (cases "handle env w e")
  with assms(1) have f: "flush (w1, es1) = (w', es)" by (simp add: step_def)
  from handle_joiner [OF h assms(2)] have "joiner_inv w1" "CreateOffer \<notin> set es1" by auto
  with flush_joiner [OF f] show ?thesis by blast
qed

lemma run_joiner:
  "run env evs (w, tr) = (w', tr') \<Longrightarrow> joiner_inv w \<Longrightarrow> CreateOffer \<notin> set tr \<Longrightarrow>
     joiner_inv w' \<and> CreateOffer \<notin> set tr'"
proof (induction evs arbitrary: w tr)
  case Nil
  then show ?case by simp
next
  case (Cons e evs)
  obtain w1 out where s: "step env w e = (w1, out)" by (cases "step env w e")
  with Cons.prems(1) have r: "run env evs (w1, tr @ out) = (w', tr')" by simp
  from step_joiner [OF s Cons.prems(2)] have j: "joiner_inv w1" and o: "CreateOffer \<notin> set out"
    by auto
  from o Cons.prems(3) have "CreateOffer \<notin> set (tr @ out)" by simp
  from Cons.IH [OF r j this] show ?case .
qed

lemma new_joiner:
  "Wormhole_new env srv code = Inr (w, tr) \<Longrightarrow> code \<noteq> [] \<Longrightarrow> joiner_inv w \<and> CreateOffer \<notin> set tr"
  by (auto simp: Wormhole_new_def dial_def blank_def joiner_inv_def
      split: if_splits prod.splits option.splits)

lemma run_task_creator:
  "run_task t w = (w', es) \<Longrightarrow> \<forall>m. t \<noteq> SendAnswer m \<Longrightarrow> creator_inv w \<Longrightarrow>
     creator_inv w' \<and> CreateAnswer \<notin> set es \<and> deferred w' = deferred w"
  by (cases t) (auto simp: creator_inv_def split: if_splits)

lemma run_tasks_creator:
  "run_tasks ts (w, es) = (w', es') \<Longrightarrow> \<forall>m. SendAnswer m \<notin> set ts \<Longrightarrow> creator_inv w \<Longrightarrow>
     CreateAnswer \<notin> set es \<Longrightarrow>
     creator_inv w' \<and> CreateAnswer \<notin> set es' \<and> deferred w' = deferred w"
proof (induction ts arbitrary: w es)
  case Nil
  then show ?case by simp
next
  case (Cons t ts)
  obtain w1 es1 where t: "run_task t w = (w1, es1)" by (cases "run_task t w")
  with Cons.prems(1) have r: "run_tasks ts (w1, es @ es1) = (w', es')" by simp
  from Cons.prems(2) have nt: "\<forall>m. t \<noteq> SendAnswer m" "\<forall>m. SendAnswer m \<notin> set ts" by auto
  from run_task_creator [OF t nt(1) Cons.prems(3)]
  have j1: "creator_inv w1" and e1: "CreateAnswer \<notin> set es1" and d1: "deferred w1 = deferred w"
    by auto
  from e1 Cons.prems(4) have e2: "CreateAnswer \<notin> set (es @ es1)" by simp
  from Cons.IH [OF r nt(2) j1 e2] d1 show ?case by simp
qed

lemma flush_creator:
  assumes "flush (w, es) = (w', es')" and "creator_inv w" and "CreateAnswer \<notin> set es"
  shows "creator_inv w' \<and> CreateAnswer \<notin> set es'"
proof (cases "finishPromise w = Fulfilled ()")
  case False
  with assms show ?thesis by (simp add: flush_def)
next
  case True
  let ?w0 = "w\<lparr>deferred := []\<rparr>"
  from True assms(1) have r: "run_tasks (deferred w) (?w0, es) = (w', es')"
    by (simp add: flush_def)
  from assms(2) have n: "\<forall>m. SendAnswer m \<notin> set (deferred w)" and j0: "creator_inv ?w0"
    by (simp_all add: creator_inv_def)
  from run_tasks_creator [OF r n j0 assms(3)] show ?thesis by simp
qed

lemma fail_creator: "creator_inv w \<Longrightarrow> creator_inv (fail r w)"
  by (simp add: creator_inv_def fail_def)

lemma onmessage_creator:
  assumes "onmessage env w d = (w', es)" and "creator_inv w"
  shows "creator_inv w' \<and> CreateAnswer \<notin> set es"
proof (cases "ws w")
  case False
  with assms show ?thesis by (simp add: onmessage_def)
next
  case True
  from assms(2) consider "state w = S_a" | "state w = S_wait_for_pake_a"
    | "state w = S_wait_for_pc_initialize" | "state w = S_wait_for_webtc_answer"
    | "state w = S_wait_for_candidates" | "state w = S_error"
    by (auto simp: creator_inv_def)
  then show ?thesis
  proof cases
    case 1
    with True assms show ?thesis
      by (auto simp: onmessage_def on_a_def makePeerConnection_def Let_def creator_inv_def fail_def
          split: option.splits if_splits)
  next
    case 2
    with True assms show ?thesis
      by (auto simp: onmessage_def on_wait_for_pake_a_def Let_def creator_inv_def fail_def
          split: option.splits if_splits prod.splits)
  next
    case 3
    with True assms show ?thesis
      by (auto simp: onmessage_def fail_creator)
  next
    case 4
    with True assms show ?thesis
      by (auto simp: onmessage_def on_wait_for_webtc_answer_def bad_key_def creator_inv_def fail_def
          split: option.splits if_splits)
  next
    case 5
    with True assms show ?thesis
      by (auto simp: onmessage_def on_wait_for_candidates_def bad_key_def creator_inv_def fail_def
          split: option.splits if_splits)
  next
    case 6
    with True assms show ?thesis by (simp add: onmessage_def)
  qed
qed

lemma resume_creator:
  "resume env s v w = (w', es) \<Longrightarrow> s = AwaitCreateOffer \<Longrightarrow> creator_inv w \<Longrightarrow>
     creator_inv w' \<and> CreateAnswer \<notin> set es"
  by (cases "(env, s, v, w)" rule: resume.cases)
     (auto simp: creator_inv_def split: option.splits)

lemma settle_creator:
  assumes "settle env i v w = (w', es)" and "creator_inv w"
  shows "creator_inv w' \<and> CreateAnswer \<notin> set es"
proof (cases "i < length (awaiting w)")
  case False
  with assms show ?thesis by (simp add: settle_def)
next
  case True
  let ?w1 = "w\<lparr>awaiting := take i (awaiting w) @ drop (Suc i) (awaiting w)\<rparr>"
  from assms(2) have n: "AwaitSetRemoteDescription \<notin> set (awaiting w)"
    "AwaitCreateAnswer \<notin> set (awaiting w)" by (simp_all add: creator_inv_def)
  from True have "awaiting w ! i \<in> set (awaiting w)" by simp
  with n have s: "awaiting w ! i = AwaitCreateOffer" by (cases "awaiting w ! i") auto
  have "set (take i (awaiting w) @ drop (Suc i) (awaiting w)) \<subseteq> set (awaiting w)"
    using set_take_subset set_drop_subset by fastforce
  with n assms(2) have j1: "creator_inv ?w1" by (auto simp: creator_inv_def)
  from True assms(1) have "resume env (awaiting w ! i) v ?w1 = (w', es)"
    by (simp add: settle_def)
  from resume_creator [OF this s j1] show ?thesis .
qed

lemma onclose_creator: "creator_inv w \<Longrightarrow> creator_inv (onclose w c r)"
  by (simp add: onclose_def fail_creator)

lemma handle_creator:
  assumes "handle env w e = (w', es)" and "creator_inv w"
  shows "creator_inv w' \<and> CreateAnswer \<notin> set es"
proof (cases e)
  case (Message d)
  with assms(1) have "onmessage env w d = (w', es)" by simp
  then show ?thesis using assms(2) by (rule onmessage_creator)
next
  case (Close c r)
  with assms(1) have "w' = onclose w c r" "es = []" by simp_all
  with assms(2) show ?thesis by (simp add: onclose_creator)
next
  case Error
  with assms(1) have "w' = fail ''could not connect to signalling server'' w" "es = []"
    by (simp_all add: onerror_def)
  with assms(2) show ?thesis by (simp add: fail_creator)
next
  case Finish
  with assms(1) have "w' = finish w" "es = []" by simp_all
  with assms(2) show ?thesis by (simp add: finish_def creator_inv_def)
next
  case (Settled i v)
  with assms(1) have "settle env i v w = (w', es)" by simp
  then show ?thesis using assms(2) by (rule settle_creator)
next
  case (IceCandidate c)
  with assms(1) have o: "onicecandidate env w c = (w', es)" by simp
  with onicecandidate_same [of env w c] have "w' = w" by simp
  moreover from o have "CreateAnswer \<notin> set es"
    by (auto simp: onicecandidate_def split: option.splits if_splits)
  ultimately show ?thesis using assms(2) by simp
qed

lemma step_creator:
  assumes "step env w e = (w', es)" and "creator_inv w"
  shows "creator_inv w' \<and> CreateAnswer \<notin> set es"
proof -
  obtain w1 es1 where h: "handle env w e = (w1, es1)" by (cases "handle env w e")
  with assms(1) have f: "flush (w1, es1) = (w', es)" by (simp add: step_def)
  from handle_creator [OF h assms(2)] have "creator_inv w1" "CreateAnswer \<notin> set es1" by auto
  with flush_creator [OF f] show ?thesis by blast
qed

lemma run_creator:
  "run env evs (w, tr) = (w', tr') \<Longrightarrow> creator_inv w \<Longrightarrow> CreateAnswer \<notin> set tr \<Longrightarrow>
     creator_inv w' \<and> CreateAnswer \<notin> set tr'"
proof (induction evs arbitrary: w tr)
  case Nil
  then show ?case by simp
next
  case (Cons e evs)
  obtain w1 out where s: "step env w e = (w1, out)" by (cases "step env w e")
  with Cons.prems(1) have r: "run env evs (w1, tr @ out) = (w', tr')" by simp
  from step_creator [OF s Cons.prems(2)] have j: "creator_inv w1" and o: "CreateAnswer \<notin> set out"
    by auto
  from o Cons.prems(3) have "CreateAnswer \<notin> set (tr @ out)" by simp
  from Cons.IH [OF r j this] show ?case .
qed

lemma new_creator:
  "Wormhole_new env srv code = Inr (w, tr) \<Longrightarrow> code = [] \<Longrightarrow> creator_inv w \<and> CreateAnswer \<notin> set tr"
  by (auto simp: Wormhole_new_def dial_def blank_def creator_inv_def
      split: if_splits prod.splits option.splits)

subsection \<open>A complete handshake of each role\<close>

lemmas handler_defs =
  step_def flush_def onmessage_def on_a_def on_b_def on_wait_for_pake_a_def
  on_wait_for_pake_b_def on_wait_for_webtc_offer_def on_wait_for_webtc_answer_def
  on_wait_for_candidates_def makePeerConnection_def parse_opened_def bad_key_def fail_def
  resolve_def reject_def finish_def settle_def Let_def

lemma joiner_handshake:
  assumes "Wormhole_new env srv code = Inr r0" and "code \<noteq> []"
    and "wsserver env srv (Some (fst (ww_decode env code))) = Some u"
    and "JSON_parse env d0 = Some hello" and "hello \<noteq> JNull"
    and "RTCPeerConnection_new env (field hello ''iceServers'')"
    and "ww_start env (snd (ww_decode env code)) = Some msgA"
    and "ww_finish env d1 = Some k"
    and "ww_open env k d2 = Some plain" and "JSON_parse env plain = Some offer"
    and "truthy offer" and "field offer ''type'' = Some (JStr ''offer'')"
  shows "snd (run env [Message d0, Message d1, Message d2, Finish,
                       Settled 0 (Some v), Settled 0 (Some answer)] r0) =
           [WsNew u ''4'', NewPeerConnection (field hello ''iceServers''), WsSend msgA,
            SetRemoteDescription offer, CreateAnswer,
            WsSend (ww_seal env k (JSON_stringify env answer)), SetLocalDescription answer]"
proof -
  obtain sl pw where dec: "ww_decode env code = (sl, pw)" by (cases "ww_decode env code")
  from assms(1,2) dec have pw: "pw \<noteq> []"
    by (auto simp: Wormhole_new_def split: if_splits)
  from assms(1,2,3) dec pw have r0: "r0 =
      (blank\<lparr>slot := Some sl, pass := pw, state := S_b, ws := True\<rparr>, [WsNew u ''4''])"
    by (auto simp: Wormhole_new_def dial_def wormhole_protocol_def)
  show ?thesis
    using assms(4-12) dec
    by (simp add: r0 blank_def handler_defs)
qed

lemma creator_handshake:
  assumes "Wormhole_new env srv code = Inr r0" and "code = []"
    and "wsserver env srv None = Some u"
    and "JSON_parse env d0 = Some hello" and "hello \<noteq> JNull"
    and "isSafeInteger (parseInt env (field hello ''slot''))"
    and "RTCPeerConnection_new env (field hello ''iceServers'')"
    and "ww_exchange env (getRandomValues env 2) d1 = (Some k, msgB)"
    and "ww_open env k d2 = Some plain" and "JSON_parse env plain = Some answer"
    and "truthy answer" and "field answer ''type'' = Some (JStr ''answer'')"
  shows "snd (run env [Message d0, Message d1, Finish, Settled 0 (Some offer), Message d2] r0) =
           [WsNew u ''4'', NewPeerConnection (field hello ''iceServers''), WsSend msgB,
            CreateOffer, WsSend (ww_seal env k (JSON_stringify env offer)),
            SetLocalDescription offer, SetRemoteDescription answer]"
proof -
  from assms(1,2,3) have r0: "r0 =
      (blank\<lparr>pass := getRandomValues env 2, state := S_a, ws := True\<rparr>, [WsNew u ''4''])"
    by (auto simp: Wormhole_new_def dial_def wormhole_protocol_def blank_def)
  show ?thesis
    using assms(4-12)
    by (simp add: r0 blank_def handler_defs)
qed

lemmas sample_defs =
  sample_env_def sample_texts sample_url_def wsserver_def startsWith_slash_def show_int_def
  Wormhole_new_def dial_def blank_def wormhole_protocol_def

lemma creator_session_new:
  "Wormhole_new sample_env ''https://example.org/'' [] = Inr creator_session"
  by (simp add: sample_defs creator_session_def)

lemma joiner_session_new:
  "Wormhole_new sample_env ''https://example.org/'' ''7-code'' = Inr joiner_session"
  by (simp add: sample_defs joiner_session_def show_nat.simps)

lemma creator_keyed_run:
  "run sample_env [Message hello_text, Message ''A''] creator_session =
     (creator_keyed, [WsNew ''wss://example.org/'' ''4'', NewPeerConnection (Some (JArr [])), WsSend ''msgB''])"
  by (simp add: creator_session_def creator_keyed_def blank_def sample_env_def sample_texts handler_defs)

lemma joiner_keyed_run:
  "run sample_env [Message hello_text, Message ''B''] joiner_session =
     (joiner_keyed, [WsNew ''wss://example.org/7'' ''4'', NewPeerConnection (Some (JArr [])), WsSend ''msgA''])"
  by (simp add: joiner_session_def joiner_keyed_def blank_def sample_env_def sample_texts handler_defs)

text \<open>
  Claim C1, as stated, fails: on the sample host the session constructed with a code
  (the slot-joiner) sends PAKE message 1, receives the offer and sends the sealed
  \<^emph>\<open>answer\<close>; the session constructed without a code (the slot-creator) responds with
  PAKE message 2 and sends the sealed \<^emph>\<open>offer\<close>.
\<close>

theorem joiner_answers_creator_offers:
  "Wormhole_new sample_env ''https://example.org/'' ''7-code'' = Inr joiner_session
   \<and> snd (run sample_env joiner_events joiner_session) =
       [WsNew ''wss://example.org/7'' ''4'', NewPeerConnection (Some (JArr [])), WsSend ''msgA'',
        SetRemoteDescription offer_json, CreateAnswer,
        WsSend (''s:'' @ answer_text), SetLocalDescription answer_json]
   \<and> Wormhole_new sample_env ''https://example.org/'' [] = Inr creator_session
   \<and> snd (run sample_env creator_events creator_session) =
       [WsNew ''wss://example.org/'' ''4'', NewPeerConnection (Some (JArr [])), WsSend ''msgB'',
        CreateOffer, WsSend (''s:'' @ offer_text), SetLocalDescription offer_json,
        SetRemoteDescription answer_json]"
  by (simp add: joiner_session_new creator_session_new)
     (simp add: joiner_events_def creator_events_def joiner_session_def creator_session_def
        blank_def sample_env_def sample_texts handler_defs)

text \<open>
  Claim C1, amended. The key-exchange role and the session-description role are coupled
  to the slot role fixed at construction, the other way round: whatever events arrive,
  the slot-joiner stays in the states of the side that sends PAKE message 1 and awaits
  the offer, and never calls \<open>createOffer\<close>; in a complete handshake it sends PAKE
  message 1 and later the sealed answer. The slot-creator stays in the states of the
  side that awaits PAKE message 1 and the answer, and never calls \<open>createAnswer\<close>; in a
  complete handshake it responds with PAKE message 2 and later sends the sealed offer.
\<close>

theorem role_coupling:
  assumes "Wormhole_new env srv code = Inr r0"
  shows
    "(code \<noteq> [] \<longrightarrow>
        (\<forall>evs. state (fst (run env evs r0)) \<in>
                 {S_b, S_wait_for_pake_b, S_wait_for_webtc_offer, S_wait_for_candidates, S_error}
               \<and> CreateOffer \<notin> set (snd (run env evs r0)))
        \<and> (\<forall>u d0 hello msgA d1 k d2 plain offer v answer.
              wsserver env srv (Some (fst (ww_decode env code))) = Some u
              \<and> JSON_parse env d0 = Some hello \<and> hello \<noteq> JNull
              \<and> RTCPeerConnection_new env (field hello ''iceServers'')
              \<and> ww_start env (snd (ww_decode env code)) = Some msgA
              \<and> ww_finish env d1 = Some k
              \<and> ww_open env k d2 = Some plain \<and> JSON_parse env plain = Some offer
              \<and> truthy offer \<and> field offer ''type'' = Some (JStr ''offer'')
              \<longrightarrow>
              snd (run env [Message d0, Message d1, Message d2, Finish,
                            Settled 0 (Some v), Settled 0 (Some answer)] r0) =
                [WsNew u ''4'', NewPeerConnection (field hello ''iceServers''), WsSend msgA,
                 SetRemoteDescription offer, CreateAnswer,
                 WsSend (ww_seal env k (JSON_stringify env answer)),
                 SetLocalDescription answer]))
     \<and> (code = [] \<longrightarrow>
        (\<forall>evs. state (fst (run env evs r0)) \<in>
                 {S_a, S_wait_for_pake_a, S_wait_for_pc_initialize, S_wait_for_webtc_answer,
                  S_wait_for_candidates, S_error}
               \<and> CreateAnswer \<notin> set (snd (run env evs r0)))
        \<and> (\<forall>u d0 hello d1 k msgB offer d2 plain answer.
              wsserver env srv None = Some u
              \<and> JSON_parse env d0 = Some hello \<and> hello \<noteq> JNull
              \<and> isSafeInteger (parseInt env (field hello ''slot''))
              \<and> RTCPeerConnection_new env (field hello ''iceServers'')
              \<and> ww_exchange env (getRandomValues env 2) d1 = (Some k, msgB)
              \<and> ww_open env k d2 = Some plain \<and> JSON_parse env plain = Some answer
              \<and> truthy answer \<and> field answer ''type'' = Some (JStr ''answer'')
              \<longrightarrow>
              snd (run env [Message d0, Message d1, Finish, Settled 0 (Some offer),
                            Message d2] r0) =
                [WsNew u ''4'', NewPeerConnection (field hello ''iceServers''), WsSend msgB,
                 CreateOffer, WsSend (ww_seal env k (JSON_stringify env offer)),
                 SetLocalDescription offer, SetRemoteDescription answer]))"
proof (intro conjI impI allI)
  fix evs
  assume c: "code \<noteq> []"
  obtain w0 tr0 where r0: "r0 = (w0, tr0)" by (cases r0)
  obtain w tr where r: "run env evs (w0, tr0) = (w, tr)" by (cases "run env evs (w0, tr0)")
  from assms r0 c have "joiner_inv w0 \<and> CreateOffer \<notin> set tr0" by (simp add: new_joiner)
  with run_joiner [OF r] have j: "joiner_inv w" "CreateOffer \<notin> set tr" by auto
  from j(1) r r0 show "state (fst (run env evs r0)) \<in>
      {S_b, S_wait_for_pake_b, S_wait_for_webtc_offer, S_wait_for_candidates, S_error}"
    by (simp add: joiner_inv_def)
  from j(2) r r0 show "CreateOffer \<notin> set (snd (run env evs r0))" by simp
next
  fix evs
  assume c: "code = []"
  obtain w0 tr0 where r0: "r0 = (w0, tr0)" by (cases r0)
  obtain w tr where r: "run env evs (w0, tr0) = (w, tr)" by (cases "run env evs (w0, tr0)")
  from assms r0 c have "creator_inv w0 \<and> CreateAnswer \<notin> set tr0" by (simp add: new_creator)
  with run_creator [OF r] have j: "creator_inv w" "CreateAnswer \<notin> set tr" by auto
  from j(1) r r0 show "state (fst (run env evs r0)) \<in>
      {S_a, S_wait_for_pake_a, S_wait_for_pc_initialize, S_wait_for_webtc_answer,
       S_wait_for_candidates, S_error}"
    by (simp add: creator_inv_def)
  from j(2) r r0 show "CreateAnswer \<notin> set (snd (run env evs r0))" by simp
next
  fix u d0 hello msgA d1 k d2 plain offer v answer
  assume c: "code \<noteq> []"
    and h: "wsserver env srv (Some (fst (ww_decode env code))) = Some u
              \<and> JSON_parse env d0 = Some hello \<and> hello \<noteq> JNull
              \<and> RTCPeerConnection_new env (field hello ''iceServers'')
              \<and> ww_start env (snd (ww_decode env code)) = Some msgA
              \<and> ww_finish env d1 = Some k
              \<and> ww_open env k d2 = Some plain \<and> JSON_parse env plain = Some offer
              \<and> truthy offer \<and> field offer ''type'' = Some (JStr ''offer'')"
  from h have hs: "wsserver env srv (Some (fst (ww_decode env code))) = Some u"
    "JSON_parse env d0 = Some hello" "hello \<noteq> JNull"
    "RTCPeerConnection_new env (field hello ''iceServers'')"
    "ww_start env (snd (ww_decode env code)) = Some msgA" "ww_finish env d1 = Some k"
    "ww_open env k d2 = Some plain" "JSON_parse env plain = Some offer"
    "truthy offer" "field offer ''type'' = Some (JStr ''offer'')"
    by blast+
  show "snd (run env [Message d0, Message d1, Message d2, Finish,
                            Settled 0 (Some v), Settled 0 (Some answer)] r0) =
                [WsNew u ''4'', NewPeerConnection (field hello ''iceServers''), WsSend msgA,
                 SetRemoteDescription offer, CreateAnswer,
                 WsSend (ww_seal env k (JSON_stringify env answer)),
                 SetLocalDescription answer]"
    by (rule joiner_handshake [OF assms c hs])
next
  fix u d0 hello d1 k msgB offer d2 plain answer
  assume c: "code = []"
    and h: "wsserver env srv None = Some u
              \<and> JSON_parse env d0 = Some hello \<and> hello \<noteq> JNull
              \<and> isSafeInteger (parseInt env (field hello ''slot''))
              \<and> RTCPeerConnection_new env (field hello ''iceServers'')
              \<and> ww_exchange env (getRandomValues env 2) d1 = (Some k, msgB)
              \<and> ww_open env k d2 = Some plain \<and> JSON_parse env plain = Some answer
              \<and> truthy answer \<and> field answer ''type'' = Some (JStr ''answer'')"
  from h have hs: "wsserver env srv None = Some u"
    "JSON_parse env d0 = Some hello" "hello \<noteq> JNull"
    "isSafeInteger (parseInt env (field hello ''slot''))"
    "RTCPeerConnection_new env (field hello ''iceServers'')"
    "ww_exchange env (getRandomValues env 2) d1 = (Some k, msgB)"
    "ww_open env k d2 = Some plain" "JSON_parse env plain = Some answer"
    "truthy answer" "field answer ''type'' = Some (JStr ''answer'')"
    by blast+
  show "snd (run env [Message d0, Message d1, Finish, Settled 0 (Some offer),
                            Message d2] r0) =
                [WsNew u ''4'', NewPeerConnection (field hello ''iceServers''), WsSend msgB,
                 CreateOffer, WsSend (ww_seal env k (JSON_stringify env offer)),
                 SetLocalDescription offer, SetRemoteDescription answer]"
    by (rule creator_handshake [OF assms c hs])
qed

theorem role_coupling_witness:
  "state (fst (run sample_env joiner_events joiner_session)) = S_wait_for_candidates
   \<and> CreateOffer \<notin> set (snd (run sample_env joiner_events joiner_session))
   \<and> snd (run sample_env joiner_events joiner_session) =
       [WsNew ''wss://example.org/7'' ''4'', NewPeerConnection (Some (JArr [])), WsSend ''msgA'',
        SetRemoteDescription offer_json, CreateAnswer,
        WsSend (''s:'' @ answer_text), SetLocalDescription answer_json]
   \<and> state (fst (run sample_env creator_events creator_session)) = S_wait_for_candidates
   \<and> CreateAnswer \<notin> set (snd (run sample_env creator_events creator_session))
   \<and> snd (run sample_env creator_events creator_session) =
       [WsNew ''wss://example.org/'' ''4'', NewPeerConnection (Some (JArr [])), WsSend ''msgB'',
        CreateOffer, WsSend (''s:'' @ offer_text), SetLocalDescription offer_json,
        SetRemoteDescription answer_json]"
proof -
  have sj: "state (fst (run sample_env joiner_events joiner_session)) = S_wait_for_candidates"
    by (simp add: joiner_events_def joiner_session_def blank_def sample_env_def sample_texts handler_defs)
  have sc: "state (fst (run sample_env creator_events creator_session)) = S_wait_for_candidates"
    by (simp add: creator_events_def creator_session_def blank_def sample_env_def sample_texts handler_defs)
  have hj: "wsserver sample_env ''https://example.org/''
              (Some (fst (ww_decode sample_env ''7-code''))) = Some ''wss://example.org/7''
      \<and> JSON_parse sample_env hello_text = Some hello_json
      \<and> hello_json \<noteq> JNull
      \<and> RTCPeerConnection_new sample_env
           (field hello_json ''iceServers'')
      \<and> ww_start sample_env (snd (ww_decode sample_env ''7-code'')) = Some ''msgA''
      \<and> ww_finish sample_env ''B'' = Some [42]
      \<and> ww_open sample_env [42] (''s:'' @ offer_text) = Some offer_text
      \<and> JSON_parse sample_env offer_text = Some offer_json
      \<and> truthy offer_json
      \<and> field offer_json ''type'' = Some (JStr ''offer'')"
    by (simp add: sample_env_def sample_texts sample_url_def wsserver_def startsWith_slash_def show_int_def
        show_nat.simps)
  have hc: "wsserver sample_env ''https://example.org/'' None = Some ''wss://example.org/''
      \<and> JSON_parse sample_env hello_text = Some hello_json
      \<and> hello_json \<noteq> JNull
      \<and> isSafeInteger (parseInt sample_env
           (field hello_json ''slot''))
      \<and> RTCPeerConnection_new sample_env
           (field hello_json ''iceServers'')
      \<and> ww_exchange sample_env (getRandomValues sample_env 2) ''A'' = (Some [42], ''msgB'')
      \<and> ww_open sample_env [42] (''s:'' @ answer_text) = Some answer_text
      \<and> JSON_parse sample_env answer_text = Some answer_json
      \<and> truthy answer_json
      \<and> field answer_json ''type'' = Some (JStr ''answer'')"
    by (simp add: sample_env_def sample_texts sample_url_def wsserver_def startsWith_slash_def)
  note j = role_coupling [OF joiner_session_new, THEN conjunct1, rule_format]
  note c = role_coupling [OF creator_session_new, THEN conjunct2, rule_format]
  have j1: "CreateOffer \<notin> set (snd (run sample_env joiner_events joiner_session))"
    using j [THEN conjunct1, rule_format, of joiner_events] by simp
  have c1: "CreateAnswer \<notin> set (snd (run sample_env creator_events creator_session))"
    using c [THEN conjunct1, rule_format, of creator_events] by simp
  have j2: "snd (run sample_env joiner_events joiner_session) =
       [WsNew ''wss://example.org/7'' ''4'', NewPeerConnection (Some (JArr [])), WsSend ''msgA'',
        SetRemoteDescription offer_json, CreateAnswer,
        WsSend (''s:'' @ answer_text), SetLocalDescription answer_json]"
    using j [THEN conjunct2, rule_format, OF _ hj, of JNull answer_json]
    by (simp add: joiner_events_def sample_env_def sample_texts)
  have c2: "snd (run sample_env creator_events creator_session) =
       [WsNew ''wss://example.org/'' ''4'', NewPeerConnection (Some (JArr [])), WsSend ''msgB'',
        CreateOffer, WsSend (''s:'' @ offer_text), SetLocalDescription offer_json,
        SetRemoteDescription answer_json]"
    using c [THEN conjunct2, rule_format, OF _ hc, of offer_json]
    by (simp add: creator_events_def sample_env_def sample_texts)
  from sj sc j1 c1 j2 c2 show ?thesis by simp
qed

subsection \<open>Messages that do not decrypt, messages that do not fit the state\<close>

text \<open>
  Claim C5, as stated, fails: the slot-creator that has derived its key and waits for
  the caller's \<open>finish()\<close> (state \<open>wait_for_pc_initialize\<close>) holds a key, and a message
  that does not open under it makes the session fail with "unexpected message": no
  "bye" is sent and the WebSocket is not closed.
\<close>

theorem undecryptable_message_without_bye:
  "Wormhole_new sample_env ''https://example.org/'' [] = Inr creator_session
   \<and> fst (run sample_env [Message hello_text, Message ''A''] creator_session) = creator_keyed
   \<and> key creator_keyed = Some [42]
   \<and> ww_open sample_env [42] ''garbage'' = None
   \<and> onmessage sample_env creator_keyed ''garbage'' =
       (creator_keyed\<lparr>donePromise := Rejected ''unexpected message'', state := S_error\<rparr>, [])"
  by (simp add: creator_session_new creator_keyed_run)
     (simp add: creator_keyed_def sample_env_def sample_texts onmessage_def fail_def reject_def)

text \<open>
  Claim C5, amended. For every session that holds a derived key and is in one of the
  three states that open inbound messages (\<open>wait_for_webtc_offer\<close>,
  \<open>wait_for_webtc_answer\<close>, \<open>wait_for_candidates\<close>), an inbound message that fails to
  open makes the state \<open>error\<close>, rejects the signal and done promises (where pending)
  with "bad key", sends the sealed "bye" and closes the WebSocket with code 4005.
\<close>

theorem bad_key_fails_session:
  assumes "Wormhole_new env srv code = Inr r0" and "run env evs r0 = (w, tr)"
    and "state w \<in> {S_wait_for_webtc_offer, S_wait_for_webtc_answer, S_wait_for_candidates}"
    and "key w = Some k" and "ww_open env k d = None"
  shows "onmessage env w d =
           (w\<lparr>signalPromise := reject ''bad key'' (signalPromise w),
              donePromise := reject ''bad key'' (donePromise w),
              state := S_error\<rparr>,
            [WsSend (ww_seal env k ''bye''), WsClose 4005])"
proof -
  from reachable_ready [OF assms(1,2)] assms(3) have g: "ws w" "pc w" by auto
  have p: "parse_opened env k d = Some JNull"
    using assms(5) by (simp add: parse_opened_def)
  from assms(3) consider "state w = S_wait_for_webtc_offer" | "state w = S_wait_for_webtc_answer"
    | "state w = S_wait_for_candidates" by auto
  then show ?thesis
  proof cases
    case 1
    with g p assms(4) show ?thesis
      by (simp add: onmessage_def on_wait_for_webtc_offer_def bad_key_def fail_def closeBadKey_def)
  next
    case 2
    with g p assms(4) show ?thesis
      by (simp add: onmessage_def on_wait_for_webtc_answer_def bad_key_def fail_def closeBadKey_def)
  next
    case 3
    with g p assms(4) show ?thesis
      by (simp add: onmessage_def on_wait_for_candidates_def bad_key_def fail_def closeBadKey_def)
  qed
qed

theorem bad_key_fails_session_witness:
  "state joiner_keyed = S_wait_for_webtc_offer
   \<and> key joiner_keyed = Some [42]
   \<and> ww_open sample_env [42] ''garbage'' = None
   \<and> onmessage sample_env joiner_keyed ''garbage'' =
       (joiner_keyed\<lparr>donePromise := Rejected ''bad key'', state := S_error\<rparr>,
        [WsSend ''s:bye'', WsClose 4005])"
proof -
  have st: "state joiner_keyed \<in>
      {S_wait_for_webtc_offer, S_wait_for_webtc_answer, S_wait_for_candidates}"
    and k: "key joiner_keyed = Some [42]"
    by (simp_all add: joiner_keyed_def)
  have op: "ww_open sample_env [42] ''garbage'' = None"
    by (simp add: sample_env_def sample_texts)
  from bad_key_fails_session [OF joiner_session_new joiner_keyed_run st k op] st k op
  show ?thesis
    by (simp add: joiner_keyed_def sample_env_def sample_texts reject_def)
qed

text \<open>
  Claim C6, as stated, fails: in state \<open>wait_for_webtc_offer\<close> the sealed message
  "bye" (the text the handlers themselves send on a bad key) opens, but is not JSON;
  \<open>JSON.parse\<close> throws, the handler ends there and the state is unchanged, not \<open>error\<close>.
\<close>

theorem unparsable_message_keeps_state:
  "Wormhole_new sample_env ''https://example.org/'' ''7-code'' = Inr joiner_session
   \<and> fst (run sample_env [Message hello_text, Message ''B''] joiner_session) = joiner_keyed
   \<and> state joiner_keyed = S_wait_for_webtc_offer
   \<and> ww_open sample_env [42] ''s:bye'' = Some ''bye''
   \<and> JSON_parse sample_env ''bye'' = None
   \<and> onmessage sample_env joiner_keyed ''s:bye'' = (joiner_keyed, [Uncaught ''SyntaxError''])
   \<and> state (fst (onmessage sample_env joiner_keyed ''s:bye'')) \<noteq> S_error"
  by (simp add: joiner_session_new joiner_keyed_run)
     (simp add: joiner_keyed_def sample_env_def sample_texts onmessage_def
        on_wait_for_webtc_offer_def parse_opened_def)

text \<open>
  Claim C6, amended. In a state with no inbound-message handler
  (\<open>wait_for_pc_initialize\<close>, \<open>wait_for_local_offer\<close>, \<open>wait_for_local_answer\<close>) every
  message yields state \<open>error\<close> and no call at all. In \<open>wait_for_webtc_offer\<close>
  (\<open>wait_for_webtc_answer\<close>) of a session the event loop can reach, a message that
  \<open>JSON.parse\<close> accepts and that is not an offer (not an answer) yields state \<open>error\<close>
  and no call on the endpoint; a message that \<open>JSON.parse\<close> rejects makes no call on
  the endpoint either.
\<close>

theorem inconsistent_message_fails:
  "(ws w \<and> state w \<in> {S_wait_for_pc_initialize, S_wait_for_local_offer, S_wait_for_local_answer}
      \<longrightarrow> onmessage env w d = (fail ''unexpected message'' w, []))
   \<and> (Wormhole_new env srv code = Inr r0 \<and> run env evs r0 = (w, tr) \<and> key w = Some k \<longrightarrow>
        (state w = S_wait_for_webtc_offer \<and> parse_opened env k d = Some msg
           \<and> \<not> (truthy msg \<and> field msg ''type'' = Some (JStr ''offer''))
         \<longrightarrow> state (fst (onmessage env w d)) = S_error
             \<and> filter touches_pc (snd (onmessage env w d)) = [])
      \<and> (state w = S_wait_for_webtc_answer \<and> parse_opened env k d = Some msg
           \<and> \<not> (truthy msg \<and> field msg ''type'' = Some (JStr ''answer''))
         \<longrightarrow> state (fst (onmessage env w d)) = S_error
             \<and> filter touches_pc (snd (onmessage env w d)) = [])
      \<and> (state w \<in> {S_wait_for_webtc_offer, S_wait_for_webtc_answer}
           \<and> parse_opened env k d = None
         \<longrightarrow> filter touches_pc (snd (onmessage env w d)) = []))"
proof (intro conjI impI)
  assume "ws w \<and> state w \<in> {S_wait_for_pc_initialize, S_wait_for_local_offer, S_wait_for_local_answer}"
  then show "onmessage env w d = (fail ''unexpected message'' w, [])"
    by (auto simp: onmessage_def)
next
  assume r: "Wormhole_new env srv code = Inr r0 \<and> run env evs r0 = (w, tr) \<and> key w = Some k"
    and s: "state w = S_wait_for_webtc_offer \<and> parse_opened env k d = Some msg
           \<and> \<not> (truthy msg \<and> field msg ''type'' = Some (JStr ''offer''))"
  from r s reachable_ready [of env srv code r0 evs w tr] have g: "ws w" "pc w" by auto
  from r s g show "state (fst (onmessage env w d)) = S_error"
    by (auto simp: onmessage_def on_wait_for_webtc_offer_def bad_key_def fail_def)
  from r s g show "filter touches_pc (snd (onmessage env w d)) = []"
    by (auto simp: onmessage_def on_wait_for_webtc_offer_def bad_key_def fail_def)
next
  assume r: "Wormhole_new env srv code = Inr r0 \<and> run env evs r0 = (w, tr) \<and> key w = Some k"
    and s: "state w = S_wait_for_webtc_answer \<and> parse_opened env k d = Some msg
           \<and> \<not> (truthy msg \<and> field msg ''type'' = Some (JStr ''answer''))"
  from r s reachable_ready [of env srv code r0 evs w tr] have g: "ws w" "pc w" by auto
  from r s g show "state (fst (onmessage env w d)) = S_error"
    by (auto simp: onmessage_def on_wait_for_webtc_answer_def bad_key_def fail_def)
  from r s g show "filter touches_pc (snd (onmessage env w d)) = []"
    by (auto simp: onmessage_def on_wait_for_webtc_answer_def bad_key_def fail_def)
next
  assume r: "Wormhole_new env srv code = Inr r0 \<and> run env evs r0 = (w, tr) \<and> key w = Some k"
    and s: "state w \<in> {S_wait_for_webtc_offer, S_wait_for_webtc_answer}
           \<and> parse_opened env k d = None"
  from r s reachable_ready [of env srv code r0 evs w tr] have g: "ws w" "pc w" by auto
  from r s g show "filter touches_pc (snd (onmessage env w d)) = []"
    by (auto simp: onmessage_def on_wait_for_webtc_offer_def on_wait_for_webtc_answer_def)
qed

theorem inconsistent_message_fails_witness:
  "parse_opened sample_env [42] (''s:'' @ answer_text) = Some answer_json
   \<and> state (fst (onmessage sample_env joiner_keyed (''s:'' @ answer_text))) = S_error
   \<and> filter touches_pc (snd (onmessage sample_env joiner_keyed (''s:'' @ answer_text))) = []
   \<and> onmessage sample_env creator_keyed (''s:'' @ answer_text) =
       (fail ''unexpected message'' creator_keyed, [])"
proof -
  have p: "parse_opened sample_env [42] (''s:'' @ answer_text) = Some answer_json"
    by (simp add: parse_opened_def sample_env_def sample_texts)
  have j: "state joiner_keyed = S_wait_for_webtc_offer" "key joiner_keyed = Some [42]"
    and c: "ws creator_keyed" "state creator_keyed = S_wait_for_pc_initialize"
    by (simp_all add: joiner_keyed_def creator_keyed_def)
  from inconsistent_message_fails [of creator_keyed sample_env "''s:'' @ answer_text"
      "''https://example.org/''" "''7-code''" joiner_session "[Message hello_text, Message ''B'']"
      "[WsNew ''wss://example.org/7'' ''4'', NewPeerConnection (Some (JArr [])), WsSend ''msgA'']"
      "[42]" answer_json] c
  have c1: "onmessage sample_env creator_keyed (''s:'' @ answer_text) =
       (fail ''unexpected message'' creator_keyed, [])"
    by simp
  from inconsistent_message_fails [of joiner_keyed sample_env "''s:'' @ answer_text"
      "''https://example.org/''" "''7-code''" joiner_session "[Message hello_text, Message ''B'']"
      "[WsNew ''wss://example.org/7'' ''4'', NewPeerConnection (Some (JArr [])), WsSend ''msgA'']"
      "[42]" answer_json]
    joiner_session_new joiner_keyed_run j p
  have j1: "state (fst (onmessage sample_env joiner_keyed (''s:'' @ answer_text))) = S_error
     \<and> filter touches_pc (snd (onmessage sample_env joiner_keyed (''s:'' @ answer_text))) = []"
    by (simp add: answer_json_def)
  from p c1 j1 show ?thesis by simp
qed

subsection \<open>The error state\<close>

lemma run_task_finishPromise:
  "run_task t w = (w', es) \<Longrightarrow> finishPromise w' = finishPromise w"
  by (cases t) (auto split: if_splits)

lemma run_tasks_finishPromise:
  "run_tasks ts (w, es) = (w', es') \<Longrightarrow> finishPromise w' = finishPromise w"
proof (induction ts arbitrary: w es)
  case Nil
  then show ?case by simp
next
  case (Cons t ts)
  obtain w1 es1 where t: "run_task t w = (w1, es1)" by (cases "run_task t w")
  with Cons.prems have r: "run_tasks ts (w1, es @ es1) = (w', es')" by simp
  from run_task_finishPromise [OF t] Cons.IH [OF r] show ?case by simp
qed

lemma flush_flushed:
  assumes "flush (w, es) = (w', es')"
  shows "flushed w'"
proof (cases "finishPromise w = Fulfilled ()")
  case False
  with assms show ?thesis by (simp add: flush_def flushed_def)
next
  case True
  with assms have r: "run_tasks (deferred w) (w\<lparr>deferred := []\<rparr>, es) = (w', es')"
    by (simp add: flush_def)
  from run_tasks_frame [OF r] show ?thesis by (simp add: flushed_def)
qed

lemma step_flushed: "step env w e = (w', es) \<Longrightarrow> flushed w'"
  by (cases "handle env w e") (auto simp: step_def dest: flush_flushed)

lemma run_flushed:
  "run env evs (w, tr) = (w', tr') \<Longrightarrow> flushed w \<Longrightarrow> flushed w'"
proof (induction evs arbitrary: w tr)
  case Nil
  then show ?case by simp
next
  case (Cons e evs)
  obtain w1 out where s: "step env w e = (w1, out)" by (cases "step env w e")
  with Cons.prems(1) have r: "run env evs (w1, tr @ out) = (w', tr')" by simp
  from Cons.IH [OF r step_flushed [OF s]] show ?case .
qed

lemma new_flushed: "Wormhole_new env srv code = Inr (w, tr) \<Longrightarrow> flushed w"
  by (auto simp: Wormhole_new_def dial_def blank_def flushed_def
      split: if_splits prod.splits option.splits)

lemma creator_failed_run:
  "run sample_env [Message hello_text, Message ''A'', Message ''garbage''] creator_session =
     (creator_failed,
      [WsNew ''wss://example.org/'' ''4'', NewPeerConnection (Some (JArr [])), WsSend ''msgB''])"
  by (simp add: creator_session_def creator_failed_def blank_def sample_env_def sample_texts
      handler_defs)

text \<open>
  Claim C7. An inbound message processed while the state is \<open>error\<close> leaves the session
  unchanged, state included, and causes no call at all: nothing is sent. For a session
  the constructor and the event loop produce, this holds of the whole turn of the event
  loop as well, the callbacks that run after the handler included.
\<close>

theorem error_absorbing:
  "(state w = S_error \<longrightarrow> onmessage env w d = (w, []))
   \<and> (Wormhole_new env srv code = Inr r0 \<and> run env evs r0 = (w, tr) \<and> state w = S_error
        \<longrightarrow> step env w (Message d) = (w, []))"
proof (intro conjI impI)
  assume "state w = S_error"
  then show "onmessage env w d = (w, [])" by (simp add: onmessage_def)
next
  assume a: "Wormhole_new env srv code = Inr r0 \<and> run env evs r0 = (w, tr) \<and> state w = S_error"
  obtain w0 tr0 where r0: "r0 = (w0, tr0)" by (cases r0)
  with a have "flushed w0" by (auto dest: new_flushed)
  with a r0 have "flushed w" by (auto dest: run_flushed)
  with a show "step env w (Message d) = (w, [])"
    by (auto simp: step_def onmessage_def flush_def flushed_def)
qed

theorem error_absorbing_witness:
  "onmessage sample_env (blank\<lparr>state := S_error, ws := True\<rparr>) offer_text
     = (blank\<lparr>state := S_error, ws := True\<rparr>, [])
   \<and> state creator_failed = S_error
   \<and> step sample_env creator_failed (Message (''s:'' @ offer_text)) = (creator_failed, [])"
proof -
  have s: "state (blank\<lparr>state := S_error, ws := True\<rparr>) = S_error"
    "state creator_failed = S_error"
    by (simp_all add: creator_failed_def)
  from error_absorbing [of "blank\<lparr>state := S_error, ws := True\<rparr>" sample_env offer_text] s(1)
  have 1: "onmessage sample_env (blank\<lparr>state := S_error, ws := True\<rparr>) offer_text
     = (blank\<lparr>state := S_error, ws := True\<rparr>, [])"
    by simp
  from error_absorbing [of creator_failed sample_env "''s:'' @ offer_text"
      "''https://example.org/''" "[]" creator_session
      "[Message hello_text, Message ''A'', Message ''garbage'']"
      "[WsNew ''wss://example.org/'' ''4'', NewPeerConnection (Some (JArr [])), WsSend ''msgB'']"]
    creator_session_new creator_failed_run s(2)
  have 2: "step sample_env creator_failed (Message (''s:'' @ offer_text)) = (creator_failed, [])"
    by simp
  from 1 2 s(2) show ?thesis by simp
qed

section \<open>Properties of the bulk pipe\<close>

subsection \<open>dial\<close>

lemma allocations_append: "allocations (xs @ ys) = allocations xs @ allocations ys"
  by (induction xs rule: allocations.induct) simp_all

lemma dial_at_switch:
  assumes "reaches_switch P (sigserv @ sl) offer body remote"
  shows "rtcpipe_dial P sl sigserv =
           (fst (accept_remote P (sigserv @ sl) remote),
            first_calls offer (sigserv @ sl) body @ snd (accept_remote P (sigserv @ sl) remote))"
  using assms
  by (auto simp: reaches_switch_def rtcpipe_dial_def new_endpoint_def first_calls_def Let_def
      split: sum.splits prod.splits)

lemma new_endpoint_allocations: "allocations (snd (new_endpoint P n)) = [n]"
  by (simp add: new_endpoint_def split: option.splits)

lemma counter_offer_allocations: "allocations (snd (counter_offer P target remote)) = [2]"
proof -
  obtain e cs where n: "new_endpoint P 2 = (e, cs)" by (cases "new_endpoint P 2")
  with new_endpoint_allocations [of P 2] have a: "allocations cs = [2]" by simp
  show ?thesis using n a
    by (auto simp: counter_offer_def allocations_append Let_def
        split: option.splits sum.splits)
qed

lemma accept_offer_allocations:
  "sd_Type remote = SDPTypeOffer \<Longrightarrow> allocations (snd (accept_remote P target remote)) = [2]"
  using counter_offer_allocations [of P target remote]
  by (cases "counter_offer P target remote")
     (auto simp: accept_remote_def split: option.splits selected.splits)

text \<open>
  Claim C4. Once the offer is posted and the response decoded: when the response is an
  offer, \<open>dial\<close> allocates exactly one further endpoint (endpoint 2, which replaces the
  first in \<open>c.pc\<close> and \<open>c.d\<close>), and, every call succeeding, sets the received description
  as remote on it, creates an answer there and posts it as a second request; when the
  response is an answer, no endpoint is allocated and the description is set as remote
  on the first endpoint; on every other type \<open>dial\<close> fails with the unknown-type error
  and makes no further call.
\<close>

theorem dial_collision:
  assumes "reaches_switch P (sigserv @ sl) offer body remote"
  shows
    "(sd_Type remote = SDPTypeOffer \<longrightarrow>
        allocations (snd (rtcpipe_dial P sl sigserv)) = [1, 2]
        \<and> (\<forall>answer a. answers_with P (sigserv @ sl) remote answer a \<longrightarrow>
              rtcpipe_dial P sl sigserv =
                (selected_outcome P 2,
                 first_calls offer (sigserv @ sl) body @
                 [NewPeerConnection_call 2, CreateDataChannel_call 2, OnOpen_call 2,
                  OnError_call 2, OnBufferedAmountLow_call 2,
                  SetBufferedAmountLowThreshold_call 2 lowWaterMark,
                  SetRemoteDescription_call 2 remote, CreateAnswer_call 2,
                  SetLocalDescription_call 2 answer, Post_call (sigserv @ sl) a])))
     \<and> (sd_Type remote = SDPTypeAnswer \<longrightarrow>
        allocations (snd (rtcpipe_dial P sl sigserv)) = [1]
        \<and> snd (rtcpipe_dial P sl sigserv) =
            first_calls offer (sigserv @ sl) body @ [SetRemoteDescription_call 1 remote]
        \<and> (SetRemoteDescription_result P 1 remote = None \<longrightarrow>
              fst (rtcpipe_dial P sl sigserv) = selected_outcome P 1))
     \<and> (\<forall>t. sd_Type remote = SDPTypeOther t \<longrightarrow>
        rtcpipe_dial P sl sigserv =
          (Fails (UnknownSdpType (SDPTypeOther t)), first_calls offer (sigserv @ sl) body))"
proof (intro conjI impI allI)
  assume "sd_Type remote = SDPTypeOffer"
  then show "allocations (snd (rtcpipe_dial P sl sigserv)) = [1, 2]"
    by (simp add: dial_at_switch [OF assms] allocations_append accept_offer_allocations
        first_calls_def)
next
  fix answer a
  assume "sd_Type remote = SDPTypeOffer" and "answers_with P (sigserv @ sl) remote answer a"
  then show "rtcpipe_dial P sl sigserv =
                (selected_outcome P 2,
                 first_calls offer (sigserv @ sl) body @
                 [NewPeerConnection_call 2, CreateDataChannel_call 2, OnOpen_call 2,
                  OnError_call 2, OnBufferedAmountLow_call 2,
                  SetBufferedAmountLowThreshold_call 2 lowWaterMark,
                  SetRemoteDescription_call 2 remote, CreateAnswer_call 2,
                  SetLocalDescription_call 2 answer, Post_call (sigserv @ sl) a])"
    by (auto simp: dial_at_switch [OF assms] accept_remote_def counter_offer_def new_endpoint_def
        answers_with_def selected_outcome_def Let_def split: sum.splits selected.splits)
next
  assume "sd_Type remote = SDPTypeAnswer"
  then show "allocations (snd (rtcpipe_dial P sl sigserv)) = [1]"
    by (auto simp: dial_at_switch [OF assms] allocations_append accept_remote_def first_calls_def
        split: option.splits selected.splits)
next
  assume "sd_Type remote = SDPTypeAnswer"
  then show "snd (rtcpipe_dial P sl sigserv) =
            first_calls offer (sigserv @ sl) body @ [SetRemoteDescription_call 1 remote]"
    by (auto simp: dial_at_switch [OF assms] accept_remote_def
        split: option.splits selected.splits)
next
  assume "sd_Type remote = SDPTypeAnswer" and "SetRemoteDescription_result P 1 remote = None"
  then show "fst (rtcpipe_dial P sl sigserv) = selected_outcome P 1"
    by (auto simp: dial_at_switch [OF assms] accept_remote_def selected_outcome_def
        split: option.splits selected.splits)
next
  fix t
  assume "sd_Type remote = SDPTypeOther t"
  then show "rtcpipe_dial P sl sigserv =
          (Fails (UnknownSdpType (SDPTypeOther t)), first_calls offer (sigserv @ sl) body)"
    by (simp add: dial_at_switch [OF assms] accept_remote_def)
qed

lemma sample_reaches_switch:
  "reaches_switch (sample_pion b) (''https://sig/'' @ ''s1'') sample_offer ''local offer''
     (sample_remote b)"
  by (simp add: reaches_switch_def sample_pion_def sample_offer_def StatusOK_def)

theorem dial_collision_witness:
  "rtcpipe_dial (sample_pion ''offer'') ''s1'' ''https://sig/'' =
     (Returns \<lparr>conn_pc = 2, conn_d = 2\<rparr>,
      [NewPeerConnection_call 1, CreateDataChannel_call 1, OnOpen_call 1, OnError_call 1,
       OnBufferedAmountLow_call 1, SetBufferedAmountLowThreshold_call 1 524288,
       CreateOffer_call 1, SetLocalDescription_call 1 sample_offer,
       Post_call ''https://sig/s1'' ''local offer'',
       NewPeerConnection_call 2, CreateDataChannel_call 2, OnOpen_call 2, OnError_call 2,
       OnBufferedAmountLow_call 2, SetBufferedAmountLowThreshold_call 2 524288,
       SetRemoteDescription_call 2 (sample_remote ''offer''), CreateAnswer_call 2,
       SetLocalDescription_call 2 sample_answer,
       Post_call ''https://sig/s1'' ''local answer''])
   \<and> allocations (snd (rtcpipe_dial (sample_pion ''offer'') ''s1'' ''https://sig/'')) = [1, 2]
   \<and> rtcpipe_dial (sample_pion ''answer'') ''s1'' ''https://sig/'' =
       (Returns \<lparr>conn_pc = 1, conn_d = 1\<rparr>,
        [NewPeerConnection_call 1, CreateDataChannel_call 1, OnOpen_call 1, OnError_call 1,
         OnBufferedAmountLow_call 1, SetBufferedAmountLowThreshold_call 1 524288,
         CreateOffer_call 1, SetLocalDescription_call 1 sample_offer,
         Post_call ''https://sig/s1'' ''local offer'',
         SetRemoteDescription_call 1 (sample_remote ''answer'')])
   \<and> rtcpipe_dial (sample_pion ''pranswer'') ''s1'' ''https://sig/'' =
       (Fails (UnknownSdpType (SDPTypeOther ''pranswer'')),
        [NewPeerConnection_call 1, CreateDataChannel_call 1, OnOpen_call 1, OnError_call 1,
         OnBufferedAmountLow_call 1, SetBufferedAmountLowThreshold_call 1 524288,
         CreateOffer_call 1, SetLocalDescription_call 1 sample_offer,
         Post_call ''https://sig/s1'' ''local offer''])"
proof -
  have a: "answers_with (sample_pion ''offer'') (''https://sig/'' @ ''s1'') (sample_remote ''offer'')
      sample_answer ''local answer''"
    by (simp add: answers_with_def sample_pion_def sample_answer_def StatusOK_def)
  have t: "sd_Type (sample_remote ''offer'') = SDPTypeOffer"
    "sd_Type (sample_remote ''answer'') = SDPTypeAnswer"
    "sd_Type (sample_remote ''pranswer'') = SDPTypeOther ''pranswer''"
    by (simp_all add: sample_remote_def)
  have s: "selected_outcome (sample_pion b) n = Returns \<lparr>conn_pc = n, conn_d = n\<rparr>" for b n
    by (simp add: selected_outcome_def sample_pion_def)
  have r: "SetRemoteDescription_result (sample_pion ''answer'') 1 (sample_remote ''answer'') = None"
    by (simp add: sample_pion_def)
  have l: "lowWaterMark = 524288" by (simp add: lowWaterMark_def)
  note d = dial_collision [OF sample_reaches_switch [of "''offer''"], THEN conjunct1,
      rule_format, OF t(1)]
  from d [THEN conjunct2, rule_format, OF a] s
  have 1: "rtcpipe_dial (sample_pion ''offer'') ''s1'' ''https://sig/'' =
     (Returns \<lparr>conn_pc = 2, conn_d = 2\<rparr>,
      first_calls sample_offer (''https://sig/'' @ ''s1'') ''local offer'' @
      [NewPeerConnection_call 2, CreateDataChannel_call 2, OnOpen_call 2, OnError_call 2,
       OnBufferedAmountLow_call 2, SetBufferedAmountLowThreshold_call 2 lowWaterMark,
       SetRemoteDescription_call 2 (sample_remote ''offer''), CreateAnswer_call 2,
       SetLocalDescription_call 2 sample_answer,
       Post_call (''https://sig/'' @ ''s1'') ''local answer''])"
    by simp
  from d [THEN conjunct1]
  have 2: "allocations (snd (rtcpipe_dial (sample_pion ''offer'') ''s1'' ''https://sig/'')) = [1, 2]"
    .
  from dial_collision [OF sample_reaches_switch [of "''answer''"]] t(2) r s
  have 3: "rtcpipe_dial (sample_pion ''answer'') ''s1'' ''https://sig/'' =
       (Returns \<lparr>conn_pc = 1, conn_d = 1\<rparr>,
        first_calls sample_offer (''https://sig/'' @ ''s1'') ''local offer'' @
        [SetRemoteDescription_call 1 (sample_remote ''answer'')])"
    by (simp add: prod_eq_iff)
  from dial_collision [OF sample_reaches_switch [of "''pranswer''"]] t(3)
  have 4: "rtcpipe_dial (sample_pion ''pranswer'') ''s1'' ''https://sig/'' =
       (Fails (UnknownSdpType (SDPTypeOther ''pranswer'')),
        first_calls sample_offer (''https://sig/'' @ ''s1'') ''local offer'')"
    by simp
  from 1 2 3 4 show ?thesis by (simp add: first_calls_def l)
qed

subsection \<open>The history of main\<close>

lemma snoc_decomp:
  "xs @ [x] = pre @ a # post \<longleftrightarrow>
     (pre = xs \<and> a = x \<and> post = []) \<or> (\<exists>post'. post = post' @ [x] \<and> xs = pre @ a # post')"
  by (cases post rule: rev_cases) auto

lemma history_ok_snoc: "history_ok tr \<Longrightarrow> follows tr x \<Longrightarrow> history_ok (tr @ [x])"
  unfolding history_ok_def snoc_decomp by blast

lemma history_ok_Nil: "history_ok []"
  by (simp add: history_ok_def)

lemma reported_simps [simp]:
  "reported d (s\<lparr>main_at := m\<rparr>) = reported d s"
  "reported d (s\<lparr>mtrace := t\<rparr>) = reported d s"
  "reported d (s\<lparr>ftrace := t'\<rparr>) = reported d s"
  "reported d (s\<lparr>bufferedAmount := b\<rparr>) = reported d s"
  by (simp_all add: reported_def split: direction.split)

lemma main_inv_frame:
  "main_inv s \<Longrightarrow> mtrace s' = mtrace s \<Longrightarrow> main_at s' = main_at s
   \<Longrightarrow> (\<And>d. reported d s \<Longrightarrow> reported d s') \<Longrightarrow> main_inv s'"
  by (cases "main_at s") (auto simp: main_inv_def)

lemma main_runs_inv: "main_inv s \<Longrightarrow> main_inv (main_runs s)"
proof (cases "main_at s")
  case M_poll
  assume i: "main_inv s"
  from i M_poll have h: "history_ok (mtrace s)" and n: "mtrace s \<noteq> []"
    by (simp_all add: main_inv_def)
  show ?thesis
  proof (cases "bufferedAmount s = 0")
    case True
    from h n have "history_ok (mtrace s @ [Observe 0])"
      by (auto intro!: history_ok_snoc simp: follows_def)
    with i M_poll True show ?thesis
      by (simp add: main_inv_def main_runs_def)
  next
    case False
    from h n have h1: "history_ok (mtrace s @ [Observe (bufferedAmount s)])"
      by (auto intro!: history_ok_snoc simp: follows_def)
    have "history_ok ((mtrace s @ [Observe (bufferedAmount s)]) @ [Sleep])"
      by (rule history_ok_snoc [OF h1]) (simp add: follows_def)
    with i M_poll False show ?thesis
      by (simp add: main_inv_def main_runs_def)
  qed
next
  case M_close_rwc
  assume i: "main_inv s"
  with M_close_rwc have "history_ok (mtrace s @ [Close_rwc])"
    by (auto intro!: history_ok_snoc simp: follows_def main_inv_def)
  with i M_close_rwc show ?thesis by (simp add: main_inv_def main_runs_def)
next
  case M_close_d
  assume i: "main_inv s"
  with M_close_d have "history_ok (mtrace s @ [Close_d])"
    by (auto intro!: history_ok_snoc simp: follows_def main_inv_def)
  with i M_close_d show ?thesis by (simp add: main_inv_def main_runs_def)
next
  case M_close_pc
  assume i: "main_inv s"
  with M_close_pc have "history_ok (mtrace s @ [Close_pc])"
    by (auto intro!: history_ok_snoc simp: follows_def main_inv_def)
  with i M_close_pc show ?thesis by (simp add: main_inv_def main_runs_def)
qed (simp_all add: main_runs_def)

lemma send_done_inv: "main_inv s \<Longrightarrow> main_inv (send_done d s)"
proof (cases "main_at s = M_recv")
  case False
  then show "main_inv s \<Longrightarrow> main_inv (send_done d s)" by (simp add: send_done_def)
next
  case True
  assume i: "main_inv s"
  with True have e: "mtrace s = []" by (simp add: main_inv_def)
  have h: "history_ok ([] @ [Recv_done d'])" for d'
    by (rule history_ok_snoc) (simp_all add: history_ok_Nil follows_def)
  show ?thesis
    using i True e h [of Drain] h [of Fill]
    by (cases d) (auto simp: send_done_def main_inv_def reported_def)
qed

lemma reported_stable:
  "reported d s \<Longrightarrow> reported d (pump_step s e)"
  by (cases d; cases e)
     (auto simp: reported_def pump_step_def main_runs_def send_done_def fill_tests_def
        read_returns_def write_returns_def after_chunk_def Let_def
        split: main_loc.splits direction.splits fill_loc.splits if_splits)

lemma pump_step_mtrace:
  "e \<noteq> Main_runs \<Longrightarrow> (\<forall>d. e \<noteq> Send_done d) \<Longrightarrow>
     mtrace (pump_step s e) = mtrace s \<and> main_at (pump_step s e) = main_at s"
  by (cases e)
     (auto simp: pump_step_def fill_tests_def read_returns_def write_returns_def Let_def
        split: fill_loc.splits)

lemma pump_step_main_inv:
  assumes "main_inv s"
  shows "main_inv (pump_step s e)"
proof (cases "main_at s = M_exit")
  case True
  with assms show ?thesis by (simp add: pump_step_def)
next
  case False
  show ?thesis
  proof (cases e)
    case Main_runs
    with False assms show ?thesis by (simp add: pump_step_def main_runs_inv)
  next
    case (Send_done d)
    with False assms show ?thesis by (simp add: pump_step_def send_done_inv)
  qed (use assms pump_step_mtrace [of e s] reported_stable [of _ s e] in
       \<open>auto intro: main_inv_frame\<close>)
qed

lemma pump_run_main_inv: "main_inv s \<Longrightarrow> main_inv (pump_run sched s)"
  by (induction sched arbitrary: s) (simp_all add: pump_step_main_inv)

lemma pump_start_main_inv: "main_inv (pump_start b)"
  by (simp add: main_inv_def pump_start_def history_ok_Nil)

lemma pump_step_fill_inv:
  assumes "fill_inv s"
  shows "fill_inv (pump_step s e)"
proof (cases "main_at s = M_exit")
  case True
  with assms show ?thesis by (simp add: pump_step_def)
next
  case False
  show ?thesis
  proof (cases e)
    case Main_runs
    with False assms show ?thesis
      by (cases "main_at s"; cases "fill_at s")
         (auto simp: pump_step_def main_runs_def fill_inv_def)
  next
    case Copy_returns
    with False assms show ?thesis
      by (cases "fill_at s") (auto simp: pump_step_def fill_inv_def)
  next
    case (Send_done d)
    with False assms show ?thesis
      by (cases d; cases "fill_at s") (auto simp: pump_step_def send_done_def fill_inv_def)
  next
    case Fill_tests
    with False assms show ?thesis
      by (cases "fill_at s") (auto simp: pump_step_def fill_tests_def fill_inv_def)
  next
    case (Read_returns nr er)
    with False assms show ?thesis
      by (cases "fill_at s")
         (auto simp: pump_step_def read_returns_def after_chunk_def fill_inv_def)
  next
    case (Write_returns nw failed)
    with False assms show ?thesis
      by (cases "fill_at s")
         (auto simp: pump_step_def write_returns_def after_chunk_def fill_inv_def Let_def)
  next
    case (Transport_sends k)
    with False assms show ?thesis
      by (cases "fill_at s") (auto simp: pump_step_def fill_inv_def)
  next
    case Flushed
    with False assms show ?thesis
      by (cases "fill_at s") (auto simp: pump_step_def fill_inv_def)
  qed
qed

lemma pump_run_fill_inv: "fill_inv s \<Longrightarrow> fill_inv (pump_run sched s)"
  by (induction sched arbitrary: s) (simp_all add: pump_step_fill_inv)

lemma pump_start_fill_inv: "fill_inv (pump_start b)"
  by (simp add: fill_inv_def pump_start_def)

lemma received_none: "(\<forall>d. Recv_done d \<notin> set xs) \<Longrightarrow> received xs = []"
  by (induction xs rule: received.induct) auto

lemma history_head:
  assumes "history_ok (a # rest)"
  shows "\<exists>d. a = Recv_done d \<and> received (a # rest) = [d]"
proof -
  from assms have "follows [] a" unfolding history_ok_def by (metis append_Nil)
  then obtain d where a: "a = Recv_done d" by (auto simp: follows_def)
  have "Recv_done d' \<notin> set rest" for d'
  proof
    assume "Recv_done d' \<in> set rest"
    then obtain p q where "rest = p @ Recv_done d' # q" by (auto dest: split_list)
    then have "a # rest = (a # p) @ Recv_done d' # q" by simp
    with assms have "follows (a # p) (Recv_done d')" unfolding history_ok_def by blast
    then show False by (simp add: follows_def)
  qed
  then have "received rest = []" by (simp add: received_none)
  with a show ?thesis by simp
qed

lemmas pump_defs =
  pump_start_def pump_step_def main_runs_def send_done_def fill_tests_def read_returns_def
  write_returns_def after_chunk_def lowWaterMark_def chunkSize_def Let_def

lemma drain_first_run:
  "pump_run drain_first (pump_start 0) =
     \<lparr>main_at = M_exit, drain_at = D_end, fill_at = F_write 100 No_error, bufferedAmount = 0,
      mtrace = [Recv_done Drain, Observe 0, Close_rwc, Close_d, Close_pc], ftrace = []\<rparr>"
  by (simp add: drain_first_def pump_defs)

lemma fill_first_run:
  "pump_run fill_first (pump_start 0) =
     \<lparr>main_at = M_exit, drain_at = D_copy, fill_at = F_end, bufferedAmount = 0,
      mtrace = [Recv_done Fill, Observe 5, Sleep, Observe 0, Close_rwc, Close_d, Close_pc],
      ftrace = [Write 5 0]\<rparr>"
  by (simp add: fill_first_def pump_defs)

lemma above_mark_run:
  "pump_run above_mark (pump_start 524289) =
     \<lparr>main_at = M_recv, drain_at = D_copy, fill_at = F_test, bufferedAmount = 557056,
      mtrace = [], ftrace = [Write 32768 524288]\<rparr>"
  by (simp add: above_mark_def pump_defs)

text \<open>
  Claim C2, as stated, fails: when the receive end finishes first, \<open>main\<close> receives its
  one value from \<open>done\<close> and runs the whole teardown while the send end still holds a
  chunk it has read and not yet written; the send end never reports.
\<close>

theorem teardown_with_fill_running:
  "main_at (pump_run drain_first (pump_start 0)) = M_exit
   \<and> mtrace (pump_run drain_first (pump_start 0)) =
       [Recv_done Drain, Observe 0, Close_rwc, Close_d, Close_pc]
   \<and> received (mtrace (pump_run drain_first (pump_start 0))) = [Drain]
   \<and> fill_at (pump_run drain_first (pump_start 0)) = F_write 100 No_error
   \<and> \<not> reported Fill (pump_run drain_first (pump_start 0))"
  by (simp add: drain_first_run reported_def)

text \<open>
  Claim C2, amended. Teardown begins after exactly one completion: \<open>main\<close> does nothing
  before it has received one value on \<open>done\<close>, it receives exactly one, from a direction
  that has finished, and everything else it does (polling, closing) comes after.
\<close>

theorem teardown_after_one_rendezvous:
  "(mtrace (pump_run sched (pump_start b)) = []
      \<and> main_at (pump_run sched (pump_start b)) = M_recv)
   \<or> (\<exists>d. hd (mtrace (pump_run sched (pump_start b))) = Recv_done d
          \<and> received (mtrace (pump_run sched (pump_start b))) = [d]
          \<and> reported d (pump_run sched (pump_start b))
          \<and> main_at (pump_run sched (pump_start b)) \<noteq> M_recv)"
proof -
  let ?s = "pump_run sched (pump_start b)"
  have i: "main_inv ?s" by (rule pump_run_main_inv [OF pump_start_main_inv])
  show ?thesis
  proof (cases "mtrace ?s")
    case Nil
    with i have "main_at ?s = M_recv" by (cases "main_at ?s") (simp_all add: main_inv_def)
    with Nil show ?thesis by simp
  next
    case (Cons a rest)
    with i have "history_ok (a # rest)" by (simp add: main_inv_def)
    from history_head [OF this] obtain d where d: "a = Recv_done d" "received (a # rest) = [d]"
      by blast
    with i Cons have "reported d ?s" by (simp add: main_inv_def)
    moreover from i Cons have "main_at ?s \<noteq> M_recv" by (auto simp: main_inv_def)
    ultimately show ?thesis using d Cons by auto
  qed
qed

theorem teardown_after_one_rendezvous_witness:
  "hd (mtrace (pump_run fill_first (pump_start 0))) = Recv_done Fill
   \<and> received (mtrace (pump_run fill_first (pump_start 0))) = [Fill]
   \<and> reported Fill (pump_run fill_first (pump_start 0))
   \<and> main_at (pump_run fill_first (pump_start 0)) = M_exit"
  using teardown_after_one_rendezvous [of fill_first 0]
  by (simp add: fill_first_run reported_def)

text \<open>
  Claim C8. In the history of \<open>main\<close>, the close of the detached channel \<open>c.rwc\<close> comes
  directly after an observation of \<open>bufferedAmount\<close> that returned exactly zero, the
  close of the channel \<open>c.d\<close> directly after that, and the close of the peer connection
  directly after the close of the channel.
\<close>

theorem teardown_order:
  assumes "mtrace (pump_run sched (pump_start b)) = pre @ a # post"
  shows "(a = Close_rwc \<longrightarrow> pre \<noteq> [] \<and> last pre = Observe 0)
       \<and> (a = Close_d \<longrightarrow> pre \<noteq> [] \<and> last pre = Close_rwc)
       \<and> (a = Close_pc \<longrightarrow> pre \<noteq> [] \<and> last pre = Close_d)"
proof -
  have "main_inv (pump_run sched (pump_start b))"
    by (rule pump_run_main_inv [OF pump_start_main_inv])
  then have "history_ok (mtrace (pump_run sched (pump_start b)))" by (simp add: main_inv_def)
  with assms have "follows pre a" unfolding history_ok_def by blast
  then show ?thesis by (simp add: follows_def)
qed

theorem teardown_order_witness:
  "mtrace (pump_run fill_first (pump_start 0)) =
     [Recv_done Fill, Observe 5, Sleep, Observe 0] @ Close_rwc # [Close_d, Close_pc]
   \<and> last [Recv_done Fill, Observe 5, Sleep, Observe 0] = Observe 0
   \<and> last [Recv_done Fill, Observe 5, Sleep, Observe 0, Close_rwc] = Close_rwc
   \<and> last [Recv_done Fill, Observe 5, Sleep, Observe 0, Close_rwc, Close_d] = Close_d"
proof -
  have m: "mtrace (pump_run fill_first (pump_start 0)) =
     [Recv_done Fill, Observe 5, Sleep, Observe 0] @ Close_rwc # [Close_d, Close_pc]"
    "mtrace (pump_run fill_first (pump_start 0)) =
     [Recv_done Fill, Observe 5, Sleep, Observe 0, Close_rwc] @ Close_d # [Close_pc]"
    "mtrace (pump_run fill_first (pump_start 0)) =
     [Recv_done Fill, Observe 5, Sleep, Observe 0, Close_rwc, Close_d] @ Close_pc # []"
    by (simp_all add: fill_first_run)
  from teardown_order [OF m(1)] teardown_order [OF m(2)] teardown_order [OF m(3)] m(1)
  show ?thesis by simp
qed

subsection \<open>Backpressure\<close>

text \<open>
  Claim C3. Every write the send end issues, in every schedule, is issued with at most
  the low-water mark of 512 KiB buffered, and carries at most 32 KiB. Testing with more
  than the mark buffered, the send end waits; and it leaves the wait only on the
  buffered-amount-low notification, to test again.
\<close>

theorem backpressure:
  "(\<forall>a \<in> set (ftrace (pump_run sched (pump_start b))). write_ok a)
   \<and> (main_at s \<noteq> M_exit \<and> fill_at s = F_test \<and> lowWaterMark < bufferedAmount s
        \<longrightarrow> fill_at (pump_step s Fill_tests) = F_wait)
   \<and> (fill_at s = F_wait \<and> fill_at (pump_step s e) \<noteq> F_wait
        \<longrightarrow> e = Flushed \<and> fill_at (pump_step s e) = F_test)"
proof (intro conjI impI)
  from pump_run_fill_inv [OF pump_start_fill_inv, of sched b]
  show "\<forall>a \<in> set (ftrace (pump_run sched (pump_start b))). write_ok a"
    by (simp add: fill_inv_def list_all_iff)
next
  assume "main_at s \<noteq> M_exit \<and> fill_at s = F_test \<and> lowWaterMark < bufferedAmount s"
  then show "fill_at (pump_step s Fill_tests) = F_wait"
    by (simp add: pump_step_def fill_tests_def)
next
  assume a: "fill_at s = F_wait \<and> fill_at (pump_step s e) \<noteq> F_wait"
  then show "e = Flushed"
    by (cases e; cases "main_at s")
       (auto simp: pump_step_def main_runs_def send_done_def fill_tests_def read_returns_def
          write_returns_def split: direction.splits if_splits)
  with a show "fill_at (pump_step s e) = F_test"
    by (auto simp: pump_step_def split: if_splits)
qed

theorem backpressure_witness:
  "ftrace (pump_run above_mark (pump_start 524289)) = [Write 32768 524288]
   \<and> write_ok (Write 32768 524288)
   \<and> lowWaterMark < bufferedAmount (pump_start 524289)
   \<and> fill_at (pump_step (pump_start 524289) Fill_tests) = F_wait
   \<and> fill_at (pump_step (pump_step (pump_start 524289) Fill_tests) (Transport_sends 1)) = F_wait
   \<and> fill_at (pump_step (pump_step (pump_start 524289) Fill_tests) Flushed) = F_test"
proof -
  let ?s = "pump_start 524289"
  have a: "main_at ?s \<noteq> M_exit \<and> fill_at ?s = F_test \<and> lowWaterMark < bufferedAmount ?s"
    by (simp add: pump_defs)
  have b: "fill_at (pump_step ?s Fill_tests) = F_wait
     \<and> fill_at (pump_step (pump_step ?s Fill_tests) Flushed) \<noteq> F_wait"
    by (simp add: pump_defs)
  note t = backpressure [of above_mark 524289 ?s]
  note u = backpressure [of above_mark 524289 "pump_step ?s Fill_tests" Flushed]
  have 1: "write_ok (Write 32768 524288)"
    using t [THEN conjunct1] by (simp add: above_mark_run)
  have 2: "fill_at (pump_step ?s Fill_tests) = F_wait"
    using t [THEN conjunct2, THEN conjunct1] a by simp
  have 3: "fill_at (pump_step (pump_step ?s Fill_tests) Flushed) = F_test"
    using u [THEN conjunct2, THEN conjunct2] b by simp
  have 4: "fill_at (pump_step (pump_step ?s Fill_tests) (Transport_sends 1)) = F_wait"
    by (simp add: pump_defs)
  from 1 2 3 4 a show ?thesis by (simp add: above_mark_run)
qed

end
